theory Spec2Isabelle
  imports Main "HOL-Library.Char_ord" "HOL-Library.List_Lexorder" "HOL-Library.Multiset"
begin

section \<open>JavaScript values\<close>

text \<open>
  The data provider of \<^verbatim>\<open>packages/ra-data-json-server/src/index.ts\<close> works on untyped
  JavaScript values (\<^verbatim>\<open>json: any\<close>, \<^verbatim>\<open>filterObj: any\<close>).  They are modelled by one
  datatype.

  \<^item> \<open>Num n\<close> is the Number whose value is the integer \<open>n\<close>.  Only integer-valued finite
    Numbers are denoted, and \<open>Num 0\<close> stands for both zeros.  The arithmetic of the source
    rounds to the nearest double (\<open>number_sub\<close>, \<open>number_mul\<close> below); it is exact on safe
    integers (\<open>safe_integer\<close>), where \<^verbatim>\<open>Number::toString\<close> prints the plain decimal digits.
  \<^item> \<open>Str s\<close> is a string; a \<open>char\<close> stands for one code unit below 256, and the order
    on \<open>char\<close> and the lexicographic order on lists are the code-unit order of
    JavaScript's string comparison.
  \<^item> \<open>Arr xs\<close> is an array without holes; only its indexed elements are recorded.
  \<^item> \<open>Obj kvs\<close> is a plain object: its own enumerable properties in the order in which
    \<^verbatim>\<open>for ... in\<close>, the spread syntax and \<^verbatim>\<open>Object.keys\<close> visit them.  A key occurs
    once; \<open>map_of\<close> reads a property.
\<close>

datatype jsval =
    Undefined
  | Null
  | JBool bool
  | Num int
  | Str string
  | Arr "jsval list"
  | Obj "(string \<times> jsval) list"

text \<open>
  What a running handler can throw or reject with: a \<^verbatim>\<open>TypeError\<close> raised by the language
  itself, or the reason with which the transport's promise was rejected.
\<close>

datatype error = TypeError | Rejection jsval

subsection \<open>Numbers and strings\<close>

definition digit_char :: "nat \<Rightarrow> char" where
  "digit_char d = ''0123456789'' ! d"

fun show_nat :: "nat \<Rightarrow> string" where
  "show_nat n = (if n < 10 then [digit_char n] else show_nat (n div 10) @ [digit_char (n mod 10)])"

declare show_nat.simps [simp del]

text \<open>\<^verbatim>\<open>Number::toString\<close> on an integer-valued Number.\<close>

definition show_int :: "int \<Rightarrow> string" where
  "show_int i = (if i < 0 then CHR ''-'' # show_nat (nat (- i)) else show_nat (nat i))"

text \<open>
  The operators \<^verbatim>\<open>-\<close> and \<^verbatim>\<open>*\<close> of the source act on Numbers, that is on IEEE 754 doubles.
  On integer-valued operands the exact result is an integer, and the operator returns the
  double nearest to it, a tie going to the even significand.  Every integer of magnitude up
  to \<open>2 ^ 53\<close> is a double; a larger one is rounded to its 53 leading bits.  A result of
  magnitude \<open>2 ^ 1024\<close> or more is \<^verbatim>\<open>Infinity\<close> in the source, which \<open>Num\<close> does not denote.
\<close>

fun bit_length :: "nat \<Rightarrow> nat" where
  "bit_length m = (if m = 0 then 0 else Suc (bit_length (m div 2)))"

declare bit_length.simps [simp del]

definition round_to_53_bits :: "nat \<Rightarrow> nat" where
  "round_to_53_bits m =
     (if m \<le> 2 ^ 53 then m
      else (let e = bit_length m - 53;
                q = m div 2 ^ e;
                r = m mod 2 ^ e;
                up = (2 ^ e < 2 * r \<or> (2 * r = 2 ^ e \<and> odd q))
            in (if up then q + 1 else q) * 2 ^ e))"

definition nearest_double :: "int \<Rightarrow> int" where
  "nearest_double n =
     (if n < 0 then - int (round_to_53_bits (nat (- n))) else int (round_to_53_bits (nat n)))"

definition number_sub :: "int \<Rightarrow> int \<Rightarrow> int" where
  "number_sub a b = nearest_double (a - b)"

definition number_mul :: "int \<Rightarrow> int \<Rightarrow> int" where
  "number_mul a b = nearest_double (a * b)"

text \<open>\<^verbatim>\<open>Number.isSafeInteger\<close>: the integers of magnitude up to \<open>2 ^ 53 - 1\<close>.\<close>

definition safe_integer :: "int \<Rightarrow> bool" where
  "safe_integer n = (- (2 ^ 53 - 1) \<le> n \<and> n \<le> 2 ^ 53 - 1)"

text \<open>\<^verbatim>\<open>Array.prototype.join\<close> on strings that are already converted.\<close>

fun join_strings :: "string \<Rightarrow> string list \<Rightarrow> string" where
  "join_strings sep [] = []"
| "join_strings sep [s] = s"
| "join_strings sep (s # t # ts) = s @ sep @ join_strings sep (t # ts)"

text \<open>
  The abstract operation \<^verbatim>\<open>ToString\<close>.  An array prints as its elements joined by a comma,
  where \<^verbatim>\<open>undefined\<close> and \<^verbatim>\<open>null\<close> elements print as the empty string; a plain object
  prints as \<^verbatim>\<open>[object Object]\<close>.
\<close>

fun ToString :: "jsval \<Rightarrow> string" where
  "ToString Undefined = ''undefined''"
| "ToString Null = ''null''"
| "ToString (JBool b) = (if b then ''true'' else ''false'')"
| "ToString (Num n) = show_int n"
| "ToString (Str s) = s"
| "ToString (Arr xs) =
     join_strings '',''
       (map (\<lambda>x. if x = Undefined \<or> x = Null then [] else ToString x) xs)"
| "ToString (Obj kvs) = ''[object Object]''"

text \<open>\<^verbatim>\<open>xs.join(sep)\<close>: each element through \<^verbatim>\<open>ToString\<close>, except \<^verbatim>\<open>undefined\<close> and \<^verbatim>\<open>null\<close>.\<close>

definition join_elem :: "jsval \<Rightarrow> string" where
  "join_elem x = (if x = Undefined \<or> x = Null then [] else ToString x)"

definition join :: "string \<Rightarrow> jsval list \<Rightarrow> string" where
  "join sep xs = join_strings sep (map join_elem xs)"

subsection \<open>\<^verbatim>\<open>isNaN\<close>\<close>

text \<open>
  \<^verbatim>\<open>isNaN(v)\<close> is true when \<^verbatim>\<open>ToNumber(v)\<close> is \<^verbatim>\<open>NaN\<close>.  For a string that is when the
  string does not match the grammar \<^verbatim>\<open>StringNumericLiteral\<close> of ECMAScript: optional white
  space around nothing at all, a signed decimal literal (digits with an optional fraction
  and exponent, or \<^verbatim>\<open>Infinity\<close>), or an unsigned binary, octal or hexadecimal integer.
\<close>

definition is_digit :: "char \<Rightarrow> bool" where
  "is_digit c = (c \<in> set ''0123456789'')"

definition is_ws :: "char \<Rightarrow> bool" where
  "is_ws c = (c \<in> {CHR 0x09, CHR 0x0A, CHR 0x0B, CHR 0x0C, CHR 0x0D, CHR 0x20, CHR 0xA0})"

definition js_trim :: "string \<Rightarrow> string" where
  "js_trim s = rev (dropWhile is_ws (rev (dropWhile is_ws s)))"

fun strip_sign :: "string \<Rightarrow> string" where
  "strip_sign [] = []"
| "strip_sign (c # cs) = (if c = CHR ''+'' \<or> c = CHR ''-'' then cs else c # cs)"

definition is_digits :: "string \<Rightarrow> bool" where
  "is_digits s = (s \<noteq> [] \<and> list_all is_digit s)"

fun is_exponent_opt :: "string \<Rightarrow> bool" where
  "is_exponent_opt [] = True"
| "is_exponent_opt (c # cs) = ((c = CHR ''e'' \<or> c = CHR ''E'') \<and> is_digits (strip_sign cs))"

definition is_unsigned_decimal :: "string \<Rightarrow> bool" where
  "is_unsigned_decimal u =
     (u = ''Infinity'' \<or>
      (let ip = takeWhile is_digit u; r = dropWhile is_digit u in
       case r of
         [] \<Rightarrow> ip \<noteq> []
       | c # r2 \<Rightarrow>
           if c = CHR ''.''
           then (let fp = takeWhile is_digit r2; r3 = dropWhile is_digit r2 in
                 (ip \<noteq> [] \<or> fp \<noteq> []) \<and> is_exponent_opt r3)
           else ip \<noteq> [] \<and> is_exponent_opt r))"

fun is_non_decimal :: "string \<Rightarrow> bool" where
  "is_non_decimal (z # p # ds) =
     (z = CHR ''0'' \<and> ds \<noteq> [] \<and>
      (if p = CHR ''x'' \<or> p = CHR ''X'' then list_all (\<lambda>c. c \<in> set ''0123456789abcdefABCDEF'') ds
       else if p = CHR ''o'' \<or> p = CHR ''O'' then list_all (\<lambda>c. c \<in> set ''01234567'') ds
       else if p = CHR ''b'' \<or> p = CHR ''B'' then list_all (\<lambda>c. c \<in> set ''01'') ds
       else False))"
| "is_non_decimal _ = False"

definition parses_as_number :: "string \<Rightarrow> bool" where
  "parses_as_number s =
     (let t = js_trim s in
      t = [] \<or> is_unsigned_decimal (strip_sign t) \<or> is_non_decimal t)"

fun isNaN :: "jsval \<Rightarrow> bool" where
  "isNaN Undefined = True"
| "isNaN Null = False"
| "isNaN (JBool b) = False"
| "isNaN (Num n) = False"
| "isNaN (Str s) = (\<not> parses_as_number s)"
| "isNaN (Arr xs) = (\<not> parses_as_number (ToString (Arr xs)))"
| "isNaN (Obj kvs) = (\<not> parses_as_number (ToString (Obj kvs)))"

subsection \<open>Properties\<close>

text \<open>
  The own enumerable properties of a value, in enumeration order: what \<^verbatim>\<open>for ... in\<close> and
  the spread syntax \<^verbatim>\<open>{...v}\<close> visit.  Arrays and strings expose their indices; the other
  primitives, \<^verbatim>\<open>undefined\<close> and \<^verbatim>\<open>null\<close> expose nothing (and neither construct throws on
  them).  The built-in prototypes have no enumerable property.
\<close>

fun own_props :: "jsval \<Rightarrow> (string \<times> jsval) list" where
  "own_props (Obj kvs) = kvs"
| "own_props (Arr xs) = zip (map show_nat [0..<length xs]) xs"
| "own_props (Str s) = zip (map show_nat [0..<length s]) (map (\<lambda>c. Str [c]) s)"
| "own_props _ = []"

definition lookup :: "(string \<times> jsval) list \<Rightarrow> string \<Rightarrow> jsval" where
  "lookup kvs k = (case map_of kvs k of Some v \<Rightarrow> v | None \<Rightarrow> Undefined)"

text \<open>
  Reading \<^verbatim>\<open>v.k\<close>.  On \<^verbatim>\<open>undefined\<close> and \<^verbatim>\<open>null\<close> it throws; a missing property reads
  as \<^verbatim>\<open>undefined\<close>.  The methods that the built-in prototypes provide are not values of
  \<open>jsval\<close>; the source reads the keys \<^verbatim>\<open>Id\<close>, \<^verbatim>\<open>id\<close>, \<^verbatim>\<open>value\<close> and \<^verbatim>\<open>length\<close> only.
\<close>

fun get_prop :: "jsval \<Rightarrow> string \<Rightarrow> error + jsval" where
  "get_prop Undefined k = Inl TypeError"
| "get_prop Null k = Inl TypeError"
| "get_prop (Arr xs) k =
     Inr (if k = ''length'' then Num (int (length xs)) else lookup (own_props (Arr xs)) k)"
| "get_prop (Str s) k =
     Inr (if k = ''length'' then Num (int (length s)) else lookup (own_props (Str s)) k)"
| "get_prop v k = Inr (lookup (own_props v) k)"

text \<open>
  Setting a property of a plain object: an existing key keeps its place, a new key (never
  an array index in this program) goes last.
\<close>

fun put :: "string \<Rightarrow> jsval \<Rightarrow> (string \<times> jsval) list \<Rightarrow> (string \<times> jsval) list" where
  "put k v [] = [(k, v)]"
| "put k v ((k', v') # kvs) = (if k' = k then (k, v) # kvs else (k', v') # put k v kvs)"

text \<open>
  The assignment \<^verbatim>\<open>v.k = x\<close> for a key \<open>k\<close> that is neither an array index nor
  \<^verbatim>\<open>length\<close>.  The source is an ECMAScript module, hence strict mode code: assigning a
  property of a primitive value throws a \<^verbatim>\<open>TypeError\<close> (in \<^verbatim>\<open>PutValue\<close>, the \<^verbatim>\<open>[[Set]]\<close> of
  the wrapper object fails because the receiver is not an object), as does any property
  access on \<^verbatim>\<open>undefined\<close> and \<^verbatim>\<open>null\<close>.  On an array the assignment adds a named
  property, which \<open>Arr\<close> does not record.
\<close>

fun set_prop :: "jsval \<Rightarrow> string \<Rightarrow> jsval \<Rightarrow> error + jsval" where
  "set_prop (Obj kvs) k x = Inr (Obj (put k x kvs))"
| "set_prop (Arr xs) k x = Inr (Arr xs)"
| "set_prop v k x = Inl TypeError"

text \<open>
  \<^verbatim>\<open>delete v.k\<close> for such a key: it throws on \<^verbatim>\<open>undefined\<close> and \<^verbatim>\<open>null\<close>, removes the
  property of a plain object and leaves every other value as it is.
\<close>

fun delete_prop :: "jsval \<Rightarrow> string \<Rightarrow> error + jsval" where
  "delete_prop Undefined k = Inl TypeError"
| "delete_prop Null k = Inl TypeError"
| "delete_prop (Obj kvs) k = Inr (Obj (filter (\<lambda>p. fst p \<noteq> k) kvs))"
| "delete_prop v k = Inr v"

subsection \<open>Exceptions\<close>

definition bindE :: "error + 'a \<Rightarrow> ('a \<Rightarrow> error + 'b) \<Rightarrow> error + 'b" where
  "bindE m f = (case m of Inl e \<Rightarrow> Inl e | Inr x \<Rightarrow> f x)"

text \<open>\<^verbatim>\<open>xs.map(f)\<close> for a callback that may throw: the first exception ends the loop.\<close>

fun mapE :: "('a \<Rightarrow> error + 'b) \<Rightarrow> 'a list \<Rightarrow> error + 'b list" where
  "mapE f [] = Inr []"
| "mapE f (x # xs) =
     (case f x of
        Inl e \<Rightarrow> Inl e
      | Inr y \<Rightarrow> (case mapE f xs of Inl e \<Rightarrow> Inl e | Inr ys \<Rightarrow> Inr (y # ys)))"

section \<open>The identifier normalizer\<close>

text \<open>
  \<^verbatim>\<open>function idFuncSingle(json) { json.id = json.Id; return json; }\<close>
  The function returns its argument, which it has changed in place.
\<close>

definition idFuncSingle :: "jsval \<Rightarrow> error + jsval" where
  "idFuncSingle json = bindE (get_prop json ''Id'') (\<lambda>v. set_prop json ''id'' v)"

text \<open>
  \<^verbatim>\<open>if (Array.isArray(json)) return json.map(item => idFuncSingle(item));
  else return idFuncSingle(json);\<close>
\<close>

fun idFunc :: "jsval \<Rightarrow> error + jsval" where
  "idFunc (Arr items) = bindE (mapE idFuncSingle items) (\<lambda>ys. Inr (Arr ys))"
| "idFunc json = idFuncSingle json"

text \<open>
  The argument of \<open>idFunc\<close> after the call, as its owner sees it.  An object is the very
  object that is returned; an array keeps its elements, each changed in place up to the
  first one on which \<open>idFuncSingle\<close> throws.
\<close>

fun idFunc_items_after :: "jsval list \<Rightarrow> jsval list" where
  "idFunc_items_after [] = []"
| "idFunc_items_after (x # xs) =
     (case idFuncSingle x of Inl e \<Rightarrow> x # xs | Inr y \<Rightarrow> y # idFunc_items_after xs)"

fun idFunc_arg_after :: "jsval \<Rightarrow> jsval" where
  "idFunc_arg_after (Arr items) = Arr (idFunc_items_after items)"
| "idFunc_arg_after json = (case idFuncSingle json of Inl e \<Rightarrow> json | Inr j \<Rightarrow> j)"

section \<open>The filter compiler\<close>

text \<open>
  \<^verbatim>\<open>value.sort()\<close> without a comparison function: \<^verbatim>\<open>undefined\<close> elements go last, the
  others are ordered by their \<^verbatim>\<open>ToString\<close> images compared code unit by code unit, and
  the sort is stable.
\<close>

definition js_sort :: "jsval list \<Rightarrow> jsval list" where
  "js_sort xs =
     sort_key ToString (filter (\<lambda>x. x \<noteq> Undefined) xs) @ filter (\<lambda>x. x = Undefined) xs"

text \<open>The callback \<^verbatim>\<open>val => (isNaN(val) ? `'${val}'` : val)\<close>.\<close>

definition quote_unless_number :: "jsval \<Rightarrow> jsval" where
  "quote_unless_number val =
     (if isNaN val then Str ([CHR 0x27] @ ToString val @ [CHR 0x27]) else val)"

text \<open>
  The body of \<^verbatim>\<open>for (const filterKey in filterObj)\<close>, with \<open>filterString\<close> as the
  accumulator; \<^verbatim>\<open>if (filterString)\<close> tests that the string is not empty.
\<close>

fun getOdataFilter_loop :: "string \<Rightarrow> (string \<times> jsval) list \<Rightarrow> string" where
  "getOdataFilter_loop filterString [] = filterString"
| "getOdataFilter_loop filterString ((filterKey, v) # rest) =
     (let value = (case v of Arr xs \<Rightarrow> js_sort xs | _ \<Rightarrow> [v]);
          filterString1 = (if filterString \<noteq> [] then filterString @ '' or '' else filterString)
      in getOdataFilter_loop
           (filterString1 @ filterKey @ '' in ('' @ join '', '' (map quote_unless_number value) @ '')'')
           rest)"

definition getOdataFilter :: "jsval \<Rightarrow> string" where
  "getOdataFilter filterObj = ''$filter='' @ getOdataFilter_loop [] (own_props filterObj)"

text \<open>
  The filter compiler as the specification words it: the clauses \<^verbatim>\<open>field in (v1, v2, ...)\<close>
  of the fields joined by \<^verbatim>\<open> or \<close>; a scalar is a one-element set and a set is rendered
  in sorted order; a value that parses as a number (\<open>isNaN\<close> is false of it) is rendered
  bare, as the text that joining a list gives it (empty for \<^verbatim>\<open>null\<close>), and any other
  value between single quotes.
\<close>

definition spec_candidates :: "jsval \<Rightarrow> jsval list" where
  "spec_candidates v = (case v of Arr xs \<Rightarrow> js_sort xs | _ \<Rightarrow> [v])"

definition spec_render :: "jsval \<Rightarrow> string" where
  "spec_render val =
     (if isNaN val then [CHR 0x27] @ ToString val @ [CHR 0x27] else join_elem val)"

definition spec_clause :: "string \<times> jsval \<Rightarrow> string" where
  "spec_clause kv =
     fst kv @ '' in ('' @ join_strings '', '' (map spec_render (spec_candidates (snd kv))) @ '')''"

definition spec_filter :: "(string \<times> jsval) list \<Rightarrow> string" where
  "spec_filter kvs = ''$filter='' @ join_strings '' or '' (map spec_clause kvs)"

section \<open>The transport and the other collaborators\<close>

text \<open>
  \<^verbatim>\<open>type Identifier = string | number\<close> of ra-core: the type of \<^verbatim>\<open>params.id\<close> and of the
  elements of \<^verbatim>\<open>params.ids\<close>.
\<close>

datatype Identifier = IdNum int | IdStr string

fun val_of :: "Identifier \<Rightarrow> jsval" where
  "val_of (IdNum n) = Num n"
| "val_of (IdStr s) = Str s"

text \<open>
  A call \<^verbatim>\<open>httpClient(url, options)\<close>.  The handlers that read call it with the URL
  alone, so \<open>http_method\<close> and \<open>body\<close> are absent there (the transport then sends a GET).
\<close>

record request =
  url :: string
  http_method :: "string option"
  body :: "string option"

text \<open>What the promise of \<^verbatim>\<open>fetchUtils.fetchJson\<close> is fulfilled with.\<close>

record response =
  status :: int
  headers :: "(string \<times> string) list"
  body_text :: string
  json :: jsval

text \<open>
  The transport is a parameter.  A call settles its promise either with a rejection reason
  (\<open>Inl\<close>) or with a response (\<open>Inr\<close>), and may depend on and change a state of the
  world \<open>'w\<close> (the server, the network).
\<close>

type_synonym 'w httpClient = "request \<Rightarrow> 'w \<Rightarrow> (jsval + response) \<times> 'w"

text \<open>
  The arguments of the factory \<^verbatim>\<open>(apiUrl, httpClient = fetchUtils.fetchJson) => ...\<close> and
  the functions that the module imports or finds in the global scope:
  \<^verbatim>\<open>fetchUtils.flattenObject\<close>, \<^verbatim>\<open>stringify\<close> of query-string, and \<^verbatim>\<open>JSON.stringify\<close>
  (\<open>None\<close> when it returns \<^verbatim>\<open>undefined\<close>).
\<close>

record 'w provider =
  apiUrl :: string
  httpClient :: "'w httpClient"
  flattenObject :: "jsval \<Rightarrow> jsval"
  stringify :: "jsval \<Rightarrow> string"
  JSON_stringify :: "jsval \<Rightarrow> string option"

text \<open>The state that the handlers act on: the requests sent so far, and the world.\<close>

record 'w net =
  sent :: "request list"
  world :: 'w

definition call :: "'w provider \<Rightarrow> request \<Rightarrow> 'w net \<Rightarrow> (jsval + response) \<times> 'w net" where
  "call p rq st =
     (case httpClient p rq (world st) of
        (settled, w') \<Rightarrow> (settled, \<lparr>sent = sent st @ [rq], world = w'\<rparr>))"

text \<open>\<^verbatim>\<open>params.ids.map(id => httpClient(...))\<close>: every request is sent, in the order of the ids.\<close>

fun call_each ::
  "'w provider \<Rightarrow> request list \<Rightarrow> 'w net \<Rightarrow> (jsval + response) list \<times> 'w net" where
  "call_each p [] st = ([], st)"
| "call_each p (rq # rqs) st =
     (case call p rq st of
        (settled, st1) \<Rightarrow>
          (case call_each p rqs st1 of (rest, st2) \<Rightarrow> (settled # rest, st2)))"

text \<open>
  \<^verbatim>\<open>Promise.all\<close>: fulfilled with all the values, in the order of the promises, when none is
  rejected, and rejected otherwise.  The reason is that of the promise rejected first in
  time; the model keeps no time and takes the leftmost one.
\<close>

fun Promise_all :: "(jsval + 'a) list \<Rightarrow> jsval + 'a list" where
  "Promise_all [] = Inr []"
| "Promise_all (Inl reason # ps) = Inl reason"
| "Promise_all (Inr x # ps) =
     (case Promise_all ps of Inl reason \<Rightarrow> Inl reason | Inr xs \<Rightarrow> Inr (x # xs))"

text \<open>
  \<^verbatim>\<open>promise.then(f)\<close>: a rejection passes through, a value goes to the callback, whose
  exception rejects the resulting promise.
\<close>

definition then_do :: "jsval + 'a \<Rightarrow> ('a \<Rightarrow> error + jsval) \<Rightarrow> error + jsval" where
  "then_do settled f = (case settled of Inl reason \<Rightarrow> Inl (Rejection reason) | Inr x \<Rightarrow> f x)"

section \<open>The operation handlers\<close>

text \<open>
  Each handler takes the provider, the resource, the fields of \<^verbatim>\<open>params\<close> that it reads
  (typed as ra-core declares them) and the state; it returns the outcome of its promise
  (\<open>Inl\<close>: rejected, or thrown before a promise exists) and the new state.  A handler that
  changes an object of its caller also returns that object as the caller finds it after
  the promise has settled.  The argument of each \<^verbatim>\<open>httpClient(...)\<close> call is a definition of
  its own.
\<close>

record pagination =
  page :: int
  perPage :: int

record sort_payload =
  field :: string
  order :: string

text \<open>The template literal \<^verbatim>\<open>`${apiUrl}/${resource}/${id}`\<close>.\<close>

definition item_url :: "'w provider \<Rightarrow> string \<Rightarrow> jsval \<Rightarrow> string" where
  "item_url p resource ident = apiUrl p @ ''/'' @ resource @ ''/'' @ ToString ident"

subsection \<open>\<^verbatim>\<open>getList\<close>\<close>

text \<open>
  The object literal \<^verbatim>\<open>{...fetchUtils.flattenObject(params.filter), _sort: field,
  _order: order, _start: (page - 1) * perPage, _end: page * perPage}\<close>.
\<close>

definition getList_query :: "'w provider \<Rightarrow> pagination \<Rightarrow> sort_payload \<Rightarrow> jsval \<Rightarrow> jsval" where
  "getList_query p pg srt flt =
     Obj (put ''_end'' (Num (number_mul (page pg) (perPage pg)))
           (put ''_start'' (Num (number_mul (number_sub (page pg) 1) (perPage pg)))
             (put ''_order'' (Str (order srt))
               (put ''_sort'' (Str (field srt))
                 (own_props (flattenObject p flt))))))"

definition getList_request ::
  "'w provider \<Rightarrow> string \<Rightarrow> pagination \<Rightarrow> sort_payload \<Rightarrow> jsval \<Rightarrow> request" where
  "getList_request p resource pg srt flt =
     \<lparr>url = apiUrl p @ ''/'' @ resource @ ''?'' @ stringify p (getList_query p pg srt flt),
      http_method = None, body = None\<rparr>"

text \<open>
  The callback of \<^verbatim>\<open>getList\<close> and \<^verbatim>\<open>getManyReference\<close>:
  \<^verbatim>\<open>({ headers, json }) => { const { value } = json;
  return { data: idFunc(value), total: value.length }; }\<close>
\<close>

definition list_result :: "response \<Rightarrow> error + jsval" where
  "list_result resp =
     bindE (get_prop (json resp) ''value'') (\<lambda>value.
     bindE (idFunc value) (\<lambda>data.
     bindE (get_prop (idFunc_arg_after value) ''length'') (\<lambda>total.
     Inr (Obj [(''data'', data), (''total'', total)]))))"

definition getList ::
  "'w provider \<Rightarrow> string \<Rightarrow> pagination \<Rightarrow> sort_payload \<Rightarrow> jsval \<Rightarrow> 'w net
     \<Rightarrow> (error + jsval) \<times> 'w net" where
  "getList p resource pg srt flt st =
     (case call p (getList_request p resource pg srt flt) st of
        (settled, st') \<Rightarrow> (then_do settled list_result, st'))"

subsection \<open>\<^verbatim>\<open>getOne\<close>\<close>

definition getOne_request :: "'w provider \<Rightarrow> string \<Rightarrow> Identifier \<Rightarrow> request" where
  "getOne_request p resource ident =
     \<lparr>url = item_url p resource (val_of ident), http_method = None, body = None\<rparr>"

definition getOne ::
  "'w provider \<Rightarrow> string \<Rightarrow> Identifier \<Rightarrow> 'w net \<Rightarrow> (error + jsval) \<times> 'w net" where
  "getOne p resource ident st =
     (case call p (getOne_request p resource ident) st of
        (settled, st') \<Rightarrow>
          (then_do settled (\<lambda>resp. bindE (idFunc (json resp)) (\<lambda>d. Inr (Obj [(''data'', d)]))),
           st'))"

subsection \<open>\<^verbatim>\<open>getMany\<close>\<close>

text \<open>
  \<^verbatim>\<open>const filterObj = { Id: params.ids }\<close>.  The handler also returns \<^verbatim>\<open>params.ids\<close>,
  which \<open>getOdataFilter\<close> sorts in place.
\<close>

definition getMany_request :: "'w provider \<Rightarrow> string \<Rightarrow> Identifier list \<Rightarrow> request" where
  "getMany_request p resource ids =
     (let filterObj = Obj [(''Id'', Arr (map val_of ids))];
          odataFilter = getOdataFilter filterObj
      in \<lparr>url = apiUrl p @ ''/'' @ resource @ ''?'' @ odataFilter,
          http_method = None, body = None\<rparr>)"

definition getMany ::
  "'w provider \<Rightarrow> string \<Rightarrow> Identifier list \<Rightarrow> 'w net
     \<Rightarrow> (error + jsval) \<times> jsval list \<times> 'w net" where
  "getMany p resource ids st =
     (case call p (getMany_request p resource ids) st of
        (settled, st') \<Rightarrow>
          (then_do settled (\<lambda>resp.
             bindE (get_prop (json resp) ''value'') (\<lambda>value.
             bindE (idFunc value) (\<lambda>d. Inr (Obj [(''data'', d)])))),
           js_sort (map val_of ids), st'))"

subsection \<open>\<^verbatim>\<open>getManyReference\<close>\<close>

text \<open>
  \<^verbatim>\<open>const filterObj = {}; filterObj[target] = id;\<close>  The key \<^verbatim>\<open>__proto__\<close> names the
  prototype accessor, and its setter ignores a primitive value: the object stays empty.
\<close>

definition getManyReference_request ::
  "'w provider \<Rightarrow> string \<Rightarrow> string \<Rightarrow> Identifier \<Rightarrow> request" where
  "getManyReference_request p resource target ident =
     (let filterObj = (if target = ''__proto__'' then Obj [] else Obj (put target (val_of ident) []))
      in \<lparr>url = apiUrl p @ ''/'' @ resource @ ''?'' @ getOdataFilter filterObj,
          http_method = None, body = None\<rparr>)"

definition getManyReference ::
  "'w provider \<Rightarrow> string \<Rightarrow> string \<Rightarrow> Identifier \<Rightarrow> 'w net \<Rightarrow> (error + jsval) \<times> 'w net" where
  "getManyReference p resource target ident st =
     (case call p (getManyReference_request p resource target ident) st of
        (settled, st') \<Rightarrow> (then_do settled list_result, st'))"

subsection \<open>\<^verbatim>\<open>update\<close>\<close>

text \<open>
  \<^verbatim>\<open>delete params.data.id\<close> runs before the request is built and
  \<^verbatim>\<open>idFunc(params.data)\<close> runs in the callback; both act on the caller's object, which is
  the second component of the result.  \<open>update_request\<close> takes the data as they are
  after the \<^verbatim>\<open>delete\<close>.
\<close>

definition update_request :: "'w provider \<Rightarrow> string \<Rightarrow> Identifier \<Rightarrow> jsval \<Rightarrow> request" where
  "update_request p resource ident data1 =
     \<lparr>url = item_url p resource (val_of ident), http_method = Some ''PUT'',
      body = JSON_stringify p data1\<rparr>"

definition update ::
  "'w provider \<Rightarrow> string \<Rightarrow> Identifier \<Rightarrow> jsval \<Rightarrow> 'w net
     \<Rightarrow> (error + jsval) \<times> jsval \<times> 'w net" where
  "update p resource ident data st =
     (case delete_prop data ''id'' of
        Inl e \<Rightarrow> (Inl e, data, st)
      | Inr data1 \<Rightarrow>
          (case call p (update_request p resource ident data1) st of
             (Inl reason, st') \<Rightarrow> (Inl (Rejection reason), data1, st')
           | (Inr resp, st') \<Rightarrow>
               (bindE (idFunc data1) (\<lambda>d. Inr (Obj [(''data'', d)])),
                idFunc_arg_after data1, st')))"

subsection \<open>\<^verbatim>\<open>updateMany\<close>\<close>

definition updateMany_requests ::
  "'w provider \<Rightarrow> string \<Rightarrow> Identifier list \<Rightarrow> jsval \<Rightarrow> request list" where
  "updateMany_requests p resource ids data =
     map (\<lambda>ident. \<lparr>url = item_url p resource (val_of ident), http_method = Some ''PUT'',
                   body = JSON_stringify p data\<rparr>) ids"

definition updateMany ::
  "'w provider \<Rightarrow> string \<Rightarrow> Identifier list \<Rightarrow> jsval \<Rightarrow> 'w net \<Rightarrow> (error + jsval) \<times> 'w net" where
  "updateMany p resource ids data st =
     (case call_each p (updateMany_requests p resource ids data) st of
        (settled, st') \<Rightarrow>
          (then_do (Promise_all settled) (\<lambda>responses.
             bindE (mapE (\<lambda>resp. get_prop (json resp) ''Id'') responses) (\<lambda>xs.
             Inr (Obj [(''data'', Arr xs)]))),
           st'))"

subsection \<open>\<^verbatim>\<open>create\<close>\<close>

definition create_request :: "'w provider \<Rightarrow> string \<Rightarrow> jsval \<Rightarrow> request" where
  "create_request p resource data =
     \<lparr>url = apiUrl p @ ''/'' @ resource, http_method = Some ''POST'',
      body = JSON_stringify p data\<rparr>"

definition create ::
  "'w provider \<Rightarrow> string \<Rightarrow> jsval \<Rightarrow> 'w net \<Rightarrow> (error + jsval) \<times> 'w net" where
  "create p resource data st =
     (case call p (create_request p resource data) st of
        (settled, st') \<Rightarrow>
          (then_do settled (\<lambda>resp. bindE (idFunc (json resp)) (\<lambda>d. Inr (Obj [(''data'', d)]))),
           st'))"

subsection \<open>\<^verbatim>\<open>delete\<close>\<close>

text \<open>
  The handler passes the object \<^verbatim>\<open>params\<close> itself to \<open>idFunc\<close>, so it takes the
  properties of that object, reads \<^verbatim>\<open>params.id\<close> from them, and returns the object as the
  caller finds it afterwards.
\<close>

definition delete_request :: "'w provider \<Rightarrow> string \<Rightarrow> (string \<times> jsval) list \<Rightarrow> request" where
  "delete_request p resource params =
     \<lparr>url = item_url p resource (lookup params ''id''), http_method = Some ''DELETE'',
      body = None\<rparr>"

definition delete ::
  "'w provider \<Rightarrow> string \<Rightarrow> (string \<times> jsval) list \<Rightarrow> 'w net
     \<Rightarrow> (error + jsval) \<times> jsval \<times> 'w net" where
  "delete p resource params st =
     (case call p (delete_request p resource params) st of
        (Inl reason, st') \<Rightarrow> (Inl (Rejection reason), Obj params, st')
      | (Inr resp, st') \<Rightarrow>
          (bindE (idFunc (Obj params)) (\<lambda>d. Inr (Obj [(''data'', d)])),
           idFunc_arg_after (Obj params), st'))"

subsection \<open>\<^verbatim>\<open>deleteMany\<close>\<close>

definition deleteMany_requests :: "'w provider \<Rightarrow> string \<Rightarrow> Identifier list \<Rightarrow> request list" where
  "deleteMany_requests p resource ids =
     map (\<lambda>ident. \<lparr>url = item_url p resource (val_of ident), http_method = Some ''DELETE'',
                   body = None\<rparr>) ids"

definition deleteMany ::
  "'w provider \<Rightarrow> string \<Rightarrow> Identifier list \<Rightarrow> 'w net \<Rightarrow> (error + jsval) \<times> 'w net" where
  "deleteMany p resource ids st =
     (case call_each p (deleteMany_requests p resource ids) st of
        (settled, st') \<Rightarrow>
          (then_do (Promise_all settled) (\<lambda>responses.
             bindE (idFunc (Arr (map val_of ids))) (\<lambda>d. Inr (Obj [(''data'', d)]))),
           st'))"

section \<open>Collaborators for the worked examples\<close>

text \<open>
  The theorems below hold for every provider.  Their instances at concrete inputs need a
  concrete one: transports that fulfil or reject every request, or reject one URL only;
  the identity for \<^verbatim>\<open>flattenObject\<close> (which it is on a flat object); a query string of
  \<^verbatim>\<open>key=value\<close> pairs in the order of the keys, joined by \<^verbatim>\<open>&\<close> (what \<^verbatim>\<open>stringify\<close> of
  query-string gives for numbers and for keys and strings that need no percent-encoding);
  and a JSON text that is adequate for values without \<^verbatim>\<open>undefined\<close> inside and strings
  without characters that JSON escapes.
\<close>

fun json_text :: "jsval \<Rightarrow> string" where
  "json_text (Str s) = [CHR 0x22] @ s @ [CHR 0x22]"
| "json_text (Arr xs) = ''['' @ join_strings '','' (map json_text xs) @ '']''"
| "json_text (Obj kvs) =
     ''{'' @ join_strings '',''
              (map (\<lambda>kv. [CHR 0x22] @ fst kv @ [CHR 0x22] @ '':'' @ json_text (snd kv)) kvs) @ ''}''"
| "json_text v = ToString v"

definition fulfilling :: "response \<Rightarrow> unit httpClient" where
  "fulfilling resp rq w = (Inr resp, w)"

definition rejecting :: "jsval \<Rightarrow> unit httpClient" where
  "rejecting reason rq w = (Inl reason, w)"

definition rejecting_url :: "string \<Rightarrow> jsval \<Rightarrow> response \<Rightarrow> unit httpClient" where
  "rejecting_url u reason resp rq w = (if url rq = u then (Inl reason, w) else (Inr resp, w))"

definition example_provider :: "unit httpClient \<Rightarrow> unit provider" where
  "example_provider hc =
     \<lparr>apiUrl = ''http://my.api.url'', httpClient = hc, flattenObject = (\<lambda>v. v),
      stringify = (\<lambda>q. join_strings ''&''
                         (map (\<lambda>kv. fst kv @ ''='' @ ToString (snd kv))
                            (sort_key fst (own_props q)))),
      JSON_stringify = (\<lambda>v. if v = Undefined then None else Some (json_text v))\<rparr>"

text \<open>A response without a body: \<^verbatim>\<open>fetchJson\<close> leaves \<^verbatim>\<open>json\<close> undefined.\<close>

definition no_content :: response where
  "no_content = \<lparr>status = 204, headers = [], body_text = [], json = Undefined\<rparr>"

definition ok_json :: "jsval \<Rightarrow> response" where
  "ok_json j = \<lparr>status = 200, headers = [], body_text = json_text j, json = j\<rparr>"

definition idle :: "unit net" where
  "idle = \<lparr>sent = [], world = ()\<rparr>"

text \<open>
  How the filter compiler renders a value of which only the \<^verbatim>\<open>ToString\<close> image is known;
  on numbers and strings that image determines the rendering.
\<close>

definition text_render :: "string \<Rightarrow> string" where
  "text_render s = (if parses_as_number s then s else [CHR 0x27] @ s @ [CHR 0x27])"

section \<open>Facts about objects\<close>

lemma map_of_put: "map_of (put k v kvs) = (map_of kvs)(k \<mapsto> v)"
  by (induction kvs) auto

lemma map_of_filter_key:
  "map_of (filter (\<lambda>kv. fst kv \<noteq> k) kvs) k' = (if k' = k then None else map_of kvs k')"
  by (induction kvs) auto

lemma lookup_filter_other:
  "k' \<noteq> k \<Longrightarrow> lookup (filter (\<lambda>kv. fst kv \<noteq> k) kvs) k' = lookup kvs k'"
  by (simp add: lookup_def map_of_filter_key)

lemma get_prop_error: "get_prop v k = Inl e \<Longrightarrow> e = TypeError"
  by (cases v) (simp_all split: if_splits)

lemma mapE_total: "(\<And>x. x \<in> set xs \<Longrightarrow> f x = Inr (g x)) \<Longrightarrow> mapE f xs = Inr (map g xs)"
  by (induction xs) simp_all

lemma mapE_error:
  assumes "\<And>x e. f x = Inl e \<Longrightarrow> e = TypeError" and "x \<in> set xs" and "f x = Inl TypeError"
  shows "mapE f xs = Inl TypeError"
  using assms(2,3)
proof (induction xs)
  case Nil
  then show ?case by simp
next
  case (Cons y ys)
  show ?case
  proof (cases "f y")
    case (Inl e)
    then show ?thesis using assms(1) [OF Inl] by simp
  next
    case (Inr b)
    then have "x \<in> set ys" using Cons.prems by auto
    then have "mapE f ys = Inl TypeError" using Cons by simp
    then show ?thesis using Inr by simp
  qed
qed

section \<open>The identifier normalizer: results\<close>

lemma idFuncSingle_Obj: "idFuncSingle (Obj R) = Inr (Obj (put ''id'' (lookup R ''Id'') R))"
  by (simp add: idFuncSingle_def bindE_def)

lemma mapE_idFuncSingle_records:
  "mapE idFuncSingle (map Obj Rs) = Inr (map (\<lambda>R. Obj (put ''id'' (lookup R ''Id'') R)) Rs)"
  by (induction Rs) (simp_all add: idFuncSingle_Obj)

lemma idFunc_items_after_records:
  "idFunc_items_after (map Obj Rs) = map (\<lambda>R. Obj (put ''id'' (lookup R ''Id'') R)) Rs"
  by (induction Rs) (simp_all add: idFuncSingle_Obj)

text \<open>
  On a primitive identifier the assignment \<^verbatim>\<open>json.id = json.Id\<close> throws, so the normalizer
  throws on every non-empty array of identifiers.
\<close>

lemma idFuncSingle_val_of: "idFuncSingle (val_of ident) = Inl TypeError"
  by (cases ident) (simp_all add: idFuncSingle_def bindE_def)

lemma idFunc_ids: "ids \<noteq> [] \<Longrightarrow> idFunc (Arr (map val_of ids)) = Inl TypeError"
  by (cases ids) (simp_all add: bindE_def idFuncSingle_val_of)

text \<open>
  Claim C1.  The normalizer turns a record \<open>R\<close> into the record in which \<^verbatim>\<open>id\<close> holds the
  value of \<open>R\<close>'s field \<^verbatim>\<open>Id\<close> (whatever that value is, so in particular a number or a
  string) and every other field is as in \<open>R\<close>; on an array of records it returns the
  array, of the same length, of the records so normalized, in the same order.
\<close>

theorem idFunc_sets_id_from_Id:
  "idFunc (Obj R) = Inr (Obj (put ''id'' (lookup R ''Id'') R))
   \<and> (map_of R ''Id'' = Some v \<longrightarrow> map_of (put ''id'' (lookup R ''Id'') R) ''id'' = Some v)
   \<and> (\<forall>k. k \<noteq> ''id'' \<longrightarrow> map_of (put ''id'' (lookup R ''Id'') R) k = map_of R k)
   \<and> idFunc (Arr (map Obj Rs)) = Inr (Arr (map (\<lambda>R. Obj (put ''id'' (lookup R ''Id'') R)) Rs))"
  by (simp add: idFuncSingle_Obj mapE_idFuncSingle_records bindE_def map_of_put lookup_def)

theorem idFunc_sets_id_from_Id_witness:
  "idFunc (Obj [(''Id'', Num 4), (''title'', Str ''x'')])
     = Inr (Obj [(''Id'', Num 4), (''title'', Str ''x''), (''id'', Num 4)])
   \<and> idFunc (Arr [Obj [(''id'', Str ''old''), (''Id'', Str ''a'')], Obj [(''Id'', Num 5)]])
     = Inr (Arr [Obj [(''id'', Str ''a''), (''Id'', Str ''a'')], Obj [(''Id'', Num 5), (''id'', Num 5)]])"
  using idFunc_sets_id_from_Id [of "[(''Id'', Num 4), (''title'', Str ''x'')]" "Num 4"
          "[[(''id'', Str ''old''), (''Id'', Str ''a'')], [(''Id'', Num 5)]]"]
  by (simp add: lookup_def)

section \<open>The filter compiler: results\<close>

lemma join_elem_quote_unless_number: "join_elem (quote_unless_number v) = spec_render v"
  by (simp add: quote_unless_number_def spec_render_def join_elem_def)

lemma join_quote_unless_number:
  "join sep (map quote_unless_number vs) = join_strings sep (map spec_render vs)"
  by (simp add: join_def comp_def join_elem_quote_unless_number)

lemma spec_clause_not_empty: "spec_clause kv \<noteq> []"
  by (simp add: spec_clause_def)

lemma join_strings_Cons:
  "join_strings sep (s # ss) = (if ss = [] then s else s @ sep @ join_strings sep ss)"
  by (cases ss) simp_all

text \<open>
  The loop with its accumulator is the \<^verbatim>\<open> or \<close>-join of the clauses: a clause is never
  empty, so the separator is added from the second clause on.
\<close>

lemma getOdataFilter_loop_spec:
  "getOdataFilter_loop acc kvs =
     (if kvs = [] then acc
      else (if acc \<noteq> [] then acc @ '' or '' else acc) @ join_strings '' or '' (map spec_clause kvs))"
proof (induction kvs arbitrary: acc)
  case Nil
  show ?case by simp
next
  case (Cons kv kvs)
  obtain k v where kv: "kv = (k, v)" by (cases kv)
  have clause:
    "k @ '' in ('' @ join '', '' (map quote_unless_number (case v of Arr xs \<Rightarrow> js_sort xs | _ \<Rightarrow> [v])) @ '')''
      = spec_clause (k, v)"
    by (simp add: spec_clause_def spec_candidates_def join_quote_unless_number)
  show ?case
    unfolding kv getOdataFilter_loop.simps Let_def clause Cons.IH
    using spec_clause_not_empty [of "(k, v)"]
    by (simp add: join_strings_Cons)
qed

lemma getOdataFilter_Obj: "getOdataFilter (Obj kvs) = spec_filter kvs"
  by (cases kvs)
    (simp_all add: getOdataFilter_def spec_filter_def getOdataFilter_loop_spec
      del: getOdataFilter_loop.simps)

text \<open>
  Claim C5.  On every filter specification the compiler returns \<^verbatim>\<open>$filter=\<close> followed by
  the clauses \<^verbatim>\<open>field in (v1, v2, ...)\<close> of the fields, joined by \<^verbatim>\<open> or \<close>, where a scalar
  counts as a one-element set and a value is bare when it parses as a number and between
  single quotes otherwise (\<open>spec_filter\<close>); the empty specification gives \<^verbatim>\<open>$filter=\<close>, and
  \<^verbatim>\<open>{A: 1, B: 'x'}\<close> gives \<^verbatim>\<open>$filter=A in (1) or B in ('x')\<close>.
\<close>

theorem getOdataFilter_meets_spec:
  "getOdataFilter (Obj kvs) = spec_filter kvs
   \<and> getOdataFilter (Obj []) = ''$filter=''
   \<and> getOdataFilter (Obj [(''A'', Num 1), (''B'', Str ''x'')]) = ''$filter=A in (1) or B in ('x')''"
proof -
  have "spec_filter [(''A'', Num 1), (''B'', Str ''x'')] = ''$filter=A in (1) or B in ('x')''"
    by code_simp
  then show ?thesis by (simp add: getOdataFilter_Obj) (simp add: spec_filter_def)
qed

theorem getOdataFilter_meets_spec_witness:
  "getOdataFilter (Obj [(''Id'', Arr [Str ''abc'', Num 5]), (''name'', Str ''O'')])
     = ''$filter=Id in (5, 'abc') or name in ('O')''"
  using getOdataFilter_meets_spec [of "[(''Id'', Arr [Str ''abc'', Num 5]), (''name'', Str ''O'')]"]
  by code_simp

subsection \<open>Permutations of a value list\<close>

text \<open>The decimal digits of an integer parse as a number.\<close>

lemma show_nat_digits: "show_nat n \<noteq> [] \<and> list_all is_digit (show_nat n)"
proof (induction n rule: show_nat.induct)
  case (1 n)
  have d: "is_digit (digit_char d)" if "d < 10" for d
  proof -
    from that have "d \<in> {0, 1, 2, 3, 4, 5, 6, 7, 8, 9}" by auto
    then show ?thesis by (auto simp: is_digit_def digit_char_def)
  qed
  show ?case
  proof (cases "n < 10")
    case True
    then show ?thesis by (simp add: show_nat.simps [of n] d)
  next
    case False
    with 1 show ?thesis by (simp add: show_nat.simps [of n] d)
  qed
qed

lemma js_trim_no_ws:
  assumes "\<forall>c \<in> set s. \<not> is_ws c"
  shows "js_trim s = s"
proof -
  have "dropWhile is_ws s = s" using assms by (cases s) simp_all
  moreover have "\<forall>c \<in> set (rev s). \<not> is_ws c" using assms by simp
  then have "dropWhile is_ws (rev s) = rev s" by (cases "rev s") simp_all
  ultimately show ?thesis by (simp add: js_trim_def)
qed

lemma is_digit_not_ws: "is_digit c \<Longrightarrow> \<not> is_ws c"
  by (auto simp: is_digit_def is_ws_def)

lemma is_digit_not_sign: "is_digit c \<Longrightarrow> c \<noteq> CHR ''+'' \<and> c \<noteq> CHR ''-''"
  by (auto simp: is_digit_def)

lemma digits_unsigned_decimal:
  assumes "ds \<noteq> []" and "list_all is_digit ds"
  shows "is_unsigned_decimal ds"
proof -
  have tw: "takeWhile is_digit ds = ds" and dw: "dropWhile is_digit ds = []"
    using assms by (simp_all add: list_all_iff)
  show ?thesis
    unfolding is_unsigned_decimal_def Let_def tw dw
    using assms(1) by simp
qed

lemma parses_show_int: "parses_as_number (show_int i)"
proof -
  obtain ds where ds: "ds = show_nat (nat (if i < 0 then - i else i))" by simp
  have ne: "ds \<noteq> []" and dg: "list_all is_digit ds"
    using show_nat_digits ds by simp_all
  have nows: "\<forall>c \<in> set ds. \<not> is_ws c"
    using dg by (auto simp: list_all_iff is_digit_not_ws)
  have strip: "strip_sign ds = ds"
    using ne dg by (cases ds) (auto simp: is_digit_not_sign)
  show ?thesis
  proof (cases "i < 0")
    case True
    then have s: "show_int i = CHR ''-'' # ds" by (simp add: show_int_def ds)
    have "js_trim (CHR ''-'' # ds) = CHR ''-'' # ds"
      using nows by (intro js_trim_no_ws) (auto simp: is_ws_def)
    then show ?thesis
      by (simp add: parses_as_number_def s digits_unsigned_decimal ne dg)
  next
    case False
    then have s: "show_int i = ds" by (simp add: show_int_def ds)
    have "js_trim ds = ds" using nows by (rule js_trim_no_ws)
    then show ?thesis
      by (simp add: parses_as_number_def s strip digits_unsigned_decimal ne dg)
  qed
qed

text \<open>
  A number and a string with the same \<^verbatim>\<open>ToString\<close> image are rendered alike, so the
  rendering of a sorted array of identifiers is a function of the sorted images.
\<close>

lemma spec_render_val_of: "spec_render (val_of i) = text_render (ToString (val_of i))"
  by (cases i) (simp_all add: spec_render_def text_render_def join_elem_def parses_show_int)

lemma map_insort_key: "map f (insort_key f x ys) = insort (f x) (map f ys)"
  by (induction ys) simp_all

lemma map_sort_key: "map f (sort_key f xs) = sort (map f xs)"
  by (induction xs) (simp_all add: map_insort_key)

lemma val_of_not_Undefined: "val_of i \<noteq> Undefined"
  by (cases i) simp_all

lemma js_sort_val_of: "js_sort (map val_of ids) = sort_key ToString (map val_of ids)"
proof -
  have "filter (\<lambda>x. x \<noteq> Undefined) (map val_of ids) = map val_of ids"
    by (simp add: val_of_not_Undefined)
  moreover have "filter (\<lambda>x. x = Undefined) (map val_of ids) = []"
    by (simp add: val_of_not_Undefined)
  ultimately show ?thesis by (simp add: js_sort_def)
qed

lemma render_sorted_ids:
  "map spec_render (js_sort (map val_of ids))
     = map text_render (sort (map (\<lambda>i. ToString (val_of i)) ids))"
proof -
  have "map spec_render (sort_key ToString (map val_of ids))
          = map text_render (map ToString (sort_key ToString (map val_of ids)))"
    by (auto simp: spec_render_val_of)
  then show ?thesis
    by (simp add: js_sort_val_of map_sort_key comp_def)
qed

lemma spec_clause_perm:
  assumes "mset ids = mset ids'"
  shows "spec_clause (k, Arr (map val_of ids)) = spec_clause (k, Arr (map val_of ids'))"
proof -
  have "mset (map (\<lambda>i. ToString (val_of i)) ids) = mset (map (\<lambda>i. ToString (val_of i)) ids')"
    using assms by (metis mset_map)
  then have "sort (map (\<lambda>i. ToString (val_of i)) ids) = sort (map (\<lambda>i. ToString (val_of i)) ids')"
    by (metis sorted_list_of_multiset_mset)
  then show ?thesis
    by (simp add: spec_clause_def spec_candidates_def render_sorted_ids)
qed

text \<open>
  The same for any values: sorting by a key and then mapping a function that the key
  determines gives a list that depends on the multiset of the input only.
\<close>

lemma map_sort_key_perm:
  assumes "mset A = mset B"
    and "\<And>v w. v \<in> set A \<Longrightarrow> w \<in> set A \<Longrightarrow> f v = f w \<Longrightarrow> h v = h w"
  shows "map h (sort_key f A) = map h (sort_key f B)"
proof -
  define g where "g s = h (SOME u. u \<in> set A \<and> f u = s)" for s
  have hg: "h v = g (f v)" if "v \<in> set A" for v
  proof -
    have "v \<in> set A \<and> f v = f v" using that by simp
    then have "(SOME u. u \<in> set A \<and> f u = f v) \<in> set A
               \<and> f (SOME u. u \<in> set A \<and> f u = f v) = f v"
      by (rule someI [where P = "\<lambda>u. u \<in> set A \<and> f u = f v"])
    then have "h v = h (SOME u. u \<in> set A \<and> f u = f v)"
      using assms(2) [of v "SOME u. u \<in> set A \<and> f u = f v"] that by simp
    then show ?thesis unfolding g_def .
  qed
  have sB: "set B = set A" using assms(1) by (rule mset_eq_setD [symmetric])
  have c: "map h (sort_key f C) = map g (sort (map f C))" if "set C = set A" for C
  proof -
    have "map h (sort_key f C) = map (\<lambda>v. g (f v)) (sort_key f C)"
      by (rule map_cong [OF refl]) (simp add: hg that)
    also have "\<dots> = map g (map f (sort_key f C))" by (simp add: comp_def)
    also have "\<dots> = map g (sort (map f C))" by (simp only: map_sort_key)
    finally show ?thesis .
  qed
  have "mset (map f A) = mset (map f B)" using assms(1) by simp
  then have "sort (map f A) = sort (map f B)"
    using sorted_list_of_multiset_mset [of "map f A"] sorted_list_of_multiset_mset [of "map f B"]
    by simp
  then show ?thesis using c [of A] c [of B] sB by simp
qed

lemma filter_Undefined:
  "filter (\<lambda>x. x = Undefined) xs = replicate (count_list xs Undefined) Undefined"
  by (induction xs) simp_all

lemma render_js_sort_perm:
  assumes "mset xs = mset ys"
    and "\<forall>v \<in> set xs. \<forall>w \<in> set xs. ToString v = ToString w \<longrightarrow> spec_render v = spec_render w"
  shows "map spec_render (js_sort xs) = map spec_render (js_sort ys)"
proof -
  have m: "mset (filter (\<lambda>x. x \<noteq> Undefined) xs) = mset (filter (\<lambda>x. x \<noteq> Undefined) ys)"
    using assms(1) by simp
  have "map spec_render (sort_key ToString (filter (\<lambda>x. x \<noteq> Undefined) xs))
          = map spec_render (sort_key ToString (filter (\<lambda>x. x \<noteq> Undefined) ys))"
    using assms(2) by (intro map_sort_key_perm [OF m]) simp
  moreover have "mset (filter (\<lambda>x. x = Undefined) xs) = mset (filter (\<lambda>x. x = Undefined) ys)"
    using assms(1) by simp
  then have "length (filter (\<lambda>x. x = Undefined) xs) = length (filter (\<lambda>x. x = Undefined) ys)"
    by (rule mset_eq_length)
  then have "count_list xs Undefined = count_list ys Undefined"
    by (simp only: filter_Undefined length_replicate)
  then have "filter (\<lambda>x. x = Undefined) xs = filter (\<lambda>x. x = Undefined) ys"
    by (simp only: filter_Undefined)
  ultimately show ?thesis by (simp add: js_sort_def)
qed

lemma identifiers_render_by_image:
  "\<forall>v \<in> set (map val_of ids). \<forall>w \<in> set (map val_of ids).
     ToString v = ToString w \<longrightarrow> spec_render v = spec_render w"
  by (auto simp: spec_render_val_of)

text \<open>
  The restriction to values that are rendered by their images is needed for values that no
  handler passes: \<^verbatim>\<open>true\<close> and \<^verbatim>\<open>'true'\<close> have the same image, the stable sort keeps them in
  their input order, and \<^verbatim>\<open>true\<close> (which converts to the number 1) stays bare while the
  string is quoted.
\<close>

lemma getOdataFilter_boolean_beside_its_image:
  "getOdataFilter (Obj [(''f'', Arr [JBool True, Str ''true''])]) = ''$filter=f in (true, 'true')''
   \<and> getOdataFilter (Obj [(''f'', Arr [Str ''true'', JBool True])]) = ''$filter=f in ('true', true)''"
proof -
  have a: "getOdataFilter (Obj [(''f'', Arr [JBool True, Str ''true''])]) = ''$filter=f in (true, 'true')''"
    by code_simp
  have b: "getOdataFilter (Obj [(''f'', Arr [Str ''true'', JBool True])]) = ''$filter=f in ('true', true)''"
    by code_simp
  show ?thesis unfolding a b by simp
qed

lemma clause_perm_general:
  assumes "mset xs = mset ys"
    and "\<forall>v \<in> set xs. \<forall>w \<in> set xs. ToString v = ToString w \<longrightarrow>
            join_elem (quote_unless_number v) = join_elem (quote_unless_number w)"
  shows "spec_clause (k, Arr xs) = spec_clause (k, Arr ys)"
proof -
  have h: "\<forall>v \<in> set xs. \<forall>w \<in> set xs. ToString v = ToString w \<longrightarrow> spec_render v = spec_render w"
    using assms(2) by (simp only: join_elem_quote_unless_number)
  have "map spec_render (js_sort xs) = map spec_render (js_sort ys)"
    by (rule render_js_sort_perm [OF assms(1) h])
  then show ?thesis
    by (simp add: spec_clause_def spec_candidates_def)
qed

lemma filter_one_clause:
  assumes "spec_clause (k, v) = spec_clause (k, w)"
  shows "getOdataFilter (Obj (before @ [(k, v)] @ after)) = getOdataFilter (Obj (before @ [(k, w)] @ after))"
  unfolding getOdataFilter_Obj spec_filter_def
  by (simp only: map_append list.map assms)

lemma getMany_request_perm:
  assumes "mset ids = mset ids'"
  shows "getMany_request p resource ids = getMany_request p resource ids'"
proof -
  have "getOdataFilter (Obj ([] @ [(''Id'', Arr (map val_of ids))] @ []))
          = getOdataFilter (Obj ([] @ [(''Id'', Arr (map val_of ids'))] @ []))"
    by (rule filter_one_clause [OF spec_clause_perm [OF assms]])
  then have "getOdataFilter (Obj [(''Id'', Arr (map val_of ids))])
          = getOdataFilter (Obj [(''Id'', Arr (map val_of ids'))])"
    by (simp only: append_Nil append_Nil2)
  then show ?thesis
    by (simp only: getMany_request_def Let_def)
qed

text \<open>
  Claim C4.  The output of the compiler is invariant under permutation of the value list
  of a field, whatever the field's name and the other fields of the specification are:
  for every two arrays that are permutations of each other and whose values are rendered
  by their \<^verbatim>\<open>ToString\<close> images (values with the same image get the same text), hence for
  every two arrays of identifiers, the element type of \<^verbatim>\<open>params.ids\<close>, the one array that
  the handlers hand to the compiler; and the request of \<^verbatim>\<open>getMany\<close> is the same for both.
  In particular \<^verbatim>\<open>{Id: [3,1,2]}\<close> and \<^verbatim>\<open>{Id: [1,2,3]}\<close> compile to the same string.
\<close>

theorem getOdataFilter_permutation_invariant:
  "(mset xs = mset ys
      \<and> (\<forall>v \<in> set xs. \<forall>w \<in> set xs. ToString v = ToString w \<longrightarrow>
            join_elem (quote_unless_number v) = join_elem (quote_unless_number w))
    \<longrightarrow> getOdataFilter (Obj (before @ [(k, Arr xs)] @ after))
        = getOdataFilter (Obj (before @ [(k, Arr ys)] @ after)))
   \<and> (mset ids = mset ids'
    \<longrightarrow> getOdataFilter (Obj (before @ [(k, Arr (map val_of ids))] @ after))
        = getOdataFilter (Obj (before @ [(k, Arr (map val_of ids'))] @ after))
      \<and> getMany_request p resource ids = getMany_request p resource ids')"
proof (intro conjI impI)
  assume a: "mset xs = mset ys
      \<and> (\<forall>v \<in> set xs. \<forall>w \<in> set xs. ToString v = ToString w \<longrightarrow>
            join_elem (quote_unless_number v) = join_elem (quote_unless_number w))"
  show "getOdataFilter (Obj (before @ [(k, Arr xs)] @ after))
        = getOdataFilter (Obj (before @ [(k, Arr ys)] @ after))"
    by (rule filter_one_clause [OF clause_perm_general [OF conjunct1 [OF a] conjunct2 [OF a]]])
next
  assume b: "mset ids = mset ids'"
  show "getOdataFilter (Obj (before @ [(k, Arr (map val_of ids))] @ after))
        = getOdataFilter (Obj (before @ [(k, Arr (map val_of ids'))] @ after))"
    by (rule filter_one_clause [OF spec_clause_perm [OF b]])
next
  assume b: "mset ids = mset ids'"
  show "getMany_request p resource ids = getMany_request p resource ids'"
    by (rule getMany_request_perm [OF b])
qed

theorem getOdataFilter_permutation_invariant_witness:
  "mset [IdNum 3, IdNum 1, IdNum 2] = mset [IdNum 1, IdNum 2, IdNum 3]
   \<and> getOdataFilter (Obj [(''Id'', Arr [Num 3, Num 1, Num 2])]) = ''$filter=Id in (1, 2, 3)''
   \<and> getOdataFilter (Obj [(''Id'', Arr [Num 1, Num 2, Num 3])]) = ''$filter=Id in (1, 2, 3)''
   \<and> mset [Str ''1'', Num 2, Num 1] = mset [Num 1, Num 2, Str ''1'']
   \<and> getOdataFilter (Obj [(''Id'', Arr [Str ''1'', Num 2, Num 1])]) = ''$filter=Id in (1, 1, 2)''
   \<and> getOdataFilter (Obj [(''Id'', Arr [Num 1, Num 2, Str ''1''])]) = ''$filter=Id in (1, 1, 2)''"
proof -
  have p: "mset [IdNum 3, IdNum 1, IdNum 2] = mset [IdNum 1, IdNum 2, IdNum 3]" by simp
  have r: "getOdataFilter (Obj [(''Id'', Arr [Num 1, Num 2, Num 3])]) = ''$filter=Id in (1, 2, 3)''"
    by code_simp
  have p': "mset [Str ''1'', Num 2, Num 1] = mset [Num 1, Num 2, Str ''1'']" by simp
  have v: "map val_of [IdStr ''1'', IdNum 2, IdNum 1] = [Str ''1'', Num 2, Num 1]"
    "map val_of [IdNum 3, IdNum 1, IdNum 2] = [Num 3, Num 1, Num 2]"
    "map val_of [IdNum 1, IdNum 2, IdNum 3] = [Num 1, Num 2, Num 3]"
    by simp_all
  have h': "\<forall>v \<in> set [Str ''1'', Num 2, Num 1]. \<forall>w \<in> set [Str ''1'', Num 2, Num 1].
              ToString v = ToString w \<longrightarrow>
              join_elem (quote_unless_number v) = join_elem (quote_unless_number w)"
    using identifiers_render_by_image [of "[IdStr ''1'', IdNum 2, IdNum 1]"]
    by (simp only: v join_elem_quote_unless_number)
  have r': "getOdataFilter (Obj [(''Id'', Arr [Num 1, Num 2, Str ''1''])]) = ''$filter=Id in (1, 1, 2)''"
    by code_simp
  note T = getOdataFilter_permutation_invariant
        [where xs = "[Str ''1'', Num 2, Num 1]" and ys = "[Num 1, Num 2, Str ''1'']"
           and ids = "[IdNum 3, IdNum 1, IdNum 2]" and ids' = "[IdNum 1, IdNum 2, IdNum 3]"
           and before = "[]" and k = "''Id''" and after = "[]"]
  have e1: "getOdataFilter (Obj [(''Id'', Arr [Str ''1'', Num 2, Num 1])])
              = getOdataFilter (Obj [(''Id'', Arr [Num 1, Num 2, Str ''1''])])"
    using mp [OF conjunct1 [OF T] conjI [OF p' h']] by (simp only: append_Nil append_Nil2)
  have e2: "getOdataFilter (Obj [(''Id'', Arr [Num 3, Num 1, Num 2])])
              = getOdataFilter (Obj [(''Id'', Arr [Num 1, Num 2, Num 3])])"
    using conjunct1 [OF mp [OF conjunct2 [OF T] p]] by (simp only: append_Nil append_Nil2 v)
  show ?thesis
    by (simp only: p p' e1 e2 r r' simp_thms)
qed

section \<open>The transport: results\<close>

lemma sent_call: "sent (snd (call p rq st)) = sent st @ [rq]"
  by (simp add: call_def split: prod.splits)

lemma call_each_sent: "sent (snd (call_each p rqs st)) = sent st @ rqs"
proof (induction rqs arbitrary: st)
  case Nil
  show ?case by simp
next
  case (Cons rq rqs)
  show ?case
    using Cons.IH [of "snd (call p rq st)"] sent_call [of p rq st]
    by (auto split: prod.splits)
qed

lemma call_each_length: "length (fst (call_each p rqs st)) = length rqs"
proof (induction rqs arbitrary: st)
  case Nil
  show ?case by simp
next
  case (Cons rq rqs)
  show ?case
    using Cons.IH [of "snd (call p rq st)"]
    by (auto split: prod.splits)
qed

lemma Promise_all_rejects:
  "Inl r \<in> set ps \<Longrightarrow> \<exists>r'. Inl r' \<in> set ps \<and> Promise_all ps = Inl r'"
proof (induction ps rule: Promise_all.induct)
  case 1
  then show ?case by simp
next
  case (2 reason ps)
  show ?case by auto
next
  case (3 x ps)
  then have "Inl r \<in> set ps" by simp
  with 3 obtain r' where "Inl r' \<in> set ps" and "Promise_all ps = Inl r'" by blast
  then show ?case by auto
qed

lemma Promise_all_fulfils: "Promise_all (map Inr xs) = Inr xs"
  by (induction xs) simp_all

lemma fan_out_rejects:
  assumes "Inl r \<in> set settled"
  shows "\<exists>r'. Inl r' \<in> set settled \<and> then_do (Promise_all settled) f = Inl (Rejection r')"
  using Promise_all_rejects [OF assms] by (auto simp: then_do_def)

text \<open>Numerals and collaborators of the worked examples.\<close>

lemma show_int_examples:
  "show_int 1 = ''1''" "show_int 2 = ''2''" "show_int 3 = ''3''" "show_int 4 = ''4''"
  "show_int 5 = ''5''" "show_int 10 = ''10''" "show_int 20 = ''20''"
  by (simp_all add: show_int_def show_nat.simps digit_char_def)

lemma example_provider_simps:
  "apiUrl (example_provider hc) = ''http://my.api.url''"
  "httpClient (example_provider hc) = hc"
  "flattenObject (example_provider hc) v = v"
  "stringify (example_provider hc) q
     = join_strings ''&'' (map (\<lambda>kv. fst kv @ ''='' @ ToString (snd kv))
                            (sort_key fst (own_props q)))"
  "JSON_stringify (example_provider hc) v = (if v = Undefined then None else Some (json_text v))"
  by (simp_all add: example_provider_def)

section \<open>\<^verbatim>\<open>getList\<close>: results\<close>

text \<open>Number arithmetic is exact where the exact result has magnitude up to \<open>2 ^ 53\<close>.\<close>

lemma nearest_double_exact: "\<bar>n\<bar> \<le> 2 ^ 53 \<Longrightarrow> nearest_double n = n"
proof -
  assume a: "\<bar>n\<bar> \<le> 2 ^ 53"
  show ?thesis
  proof (cases "n < 0")
    case True
    then have "nat (- n) \<le> 2 ^ 53" using a by (simp add: nat_le_iff)
    then show ?thesis using True by (simp add: nearest_double_def round_to_53_bits_def)
  next
    case False
    then have "nat n \<le> 2 ^ 53" using a by (simp add: nat_le_iff)
    then show ?thesis using False by (simp add: nearest_double_def round_to_53_bits_def)
  qed
qed

lemma safe_integer_abs: "safe_integer n \<Longrightarrow> \<bar>n\<bar> \<le> 2 ^ 53"
  by (simp add: safe_integer_def abs_le_iff)

lemma number_mul_exact: "safe_integer (a * b) \<Longrightarrow> number_mul a b = a * b"
  using nearest_double_exact [OF safe_integer_abs, of "a * b"]
  by (simp add: number_mul_def)

lemma number_sub_1_exact: "safe_integer a \<Longrightarrow> number_sub a 1 = a - 1"
proof -
  assume "safe_integer a"
  then have "\<bar>a - 1\<bar> \<le> 2 ^ 53" by (simp add: safe_integer_def abs_le_iff)
  then show ?thesis by (simp add: number_sub_def nearest_double_exact del: abs_le_iff)
qed

text \<open>
  Beyond the safe integers the product is rounded: \<open>94906267 * 94906267\<close> is
  \<open>9007199515875289\<close>, which lies halfway between two doubles, and the source computes the
  even one.
\<close>

lemma number_mul_rounds: "number_mul 94906267 94906267 = 9007199515875288"
proof -
  have b: "bit_length 9007199515875289 = 54"
    by (simp add: bit_length.simps)
  have r: "round_to_53_bits 9007199515875289 = 9007199515875288"
    by (simp add: round_to_53_bits_def b Let_def)
  show ?thesis
    by (simp add: number_mul_def nearest_double_def r)
qed

text \<open>
  Claim C6.  The query object built for the one GET of \<^verbatim>\<open>getList\<close> holds \<^verbatim>\<open>_sort = field\<close>
  and \<^verbatim>\<open>_order = order\<close>; it holds \<^verbatim>\<open>_start = (page - 1) * perPage\<close> and
  \<^verbatim>\<open>_end = page * perPage\<close>, as exact integers, whenever \<^verbatim>\<open>page\<close>, \<^verbatim>\<open>perPage\<close> and these two
  products are safe integers; and under every other key it holds exactly what the flattened
  filter holds there (nothing, where the flattened filter has no such key).  The handler
  sends one request, whose URL carries the serialization of that object.
\<close>

theorem getList_query_parameters:
  "map_of (own_props (getList_query p pg srt F)) ''_sort'' = Some (Str (field srt))
   \<and> map_of (own_props (getList_query p pg srt F)) ''_order'' = Some (Str (order srt))
   \<and> (safe_integer (page pg) \<and> safe_integer (perPage pg)
        \<and> safe_integer ((page pg - 1) * perPage pg) \<and> safe_integer (page pg * perPage pg)
      \<longrightarrow> map_of (own_props (getList_query p pg srt F)) ''_start''
            = Some (Num ((page pg - 1) * perPage pg))
        \<and> map_of (own_props (getList_query p pg srt F)) ''_end''
            = Some (Num (page pg * perPage pg)))
   \<and> (\<forall>k. k \<notin> {''_sort'', ''_order'', ''_start'', ''_end''} \<longrightarrow>
         map_of (own_props (getList_query p pg srt F)) k = map_of (own_props (flattenObject p F)) k)
   \<and> sent (snd (getList p resource pg srt F st))
       = sent st @ [\<lparr>url = apiUrl p @ ''/'' @ resource @ ''?'' @ stringify p (getList_query p pg srt F),
                     http_method = None, body = None\<rparr>]"
proof -
  have exact: "number_mul (number_sub (page pg) 1) (perPage pg) = (page pg - 1) * perPage pg
               \<and> number_mul (page pg) (perPage pg) = page pg * perPage pg"
    if "safe_integer (page pg)" and "safe_integer ((page pg - 1) * perPage pg)"
      and "safe_integer (page pg * perPage pg)"
    using that by (simp add: number_sub_1_exact number_mul_exact)
  show ?thesis
    using exact
    by (simp add: getList_query_def map_of_put getList_def getList_request_def call_def
        split: prod.splits)
qed

theorem getList_query_parameters_witness:
  "safe_integer 2 \<and> safe_integer 10 \<and> safe_integer ((2 - 1) * 10) \<and> safe_integer (2 * 10)
   \<and> getList_query (example_provider (fulfilling no_content)) \<lparr>page = 2, perPage = 10\<rparr>
       \<lparr>field = ''title'', order = ''ASC''\<rparr> (Obj [(''author'', Str ''x'')])
     = Obj [(''author'', Str ''x''), (''_sort'', Str ''title''), (''_order'', Str ''ASC''),
            (''_start'', Num 10), (''_end'', Num 20)]
   \<and> sent (snd (getList (example_provider (fulfilling no_content)) ''posts'' \<lparr>page = 2, perPage = 10\<rparr>
       \<lparr>field = ''title'', order = ''ASC''\<rparr> (Obj [(''author'', Str ''x'')]) idle))
     = [\<lparr>url = ''http://my.api.url/posts?_end=20&_order=ASC&_sort=title&_start=10&author=x'',
         http_method = None, body = None\<rparr>]"
proof -
  have safe: "safe_integer 2" "safe_integer 10" "safe_integer ((2 - 1) * 10)" "safe_integer (2 * 10)"
    by (simp_all add: safe_integer_def)
  have n: "number_mul (number_sub 2 1) 10 = 10" "number_mul 2 10 = 20"
    using number_sub_1_exact [OF safe(1)] number_mul_exact [of 1 10] number_mul_exact [of 2 10] safe
    by simp_all
  have q: "getList_query (example_provider (fulfilling no_content)) \<lparr>page = 2, perPage = 10\<rparr>
       \<lparr>field = ''title'', order = ''ASC''\<rparr> (Obj [(''author'', Str ''x'')])
     = Obj [(''author'', Str ''x''), (''_sort'', Str ''title''), (''_order'', Str ''ASC''),
            (''_start'', Num 10), (''_end'', Num 20)]"
    by (simp add: getList_query_def example_provider_simps n)
  have k: "sort_key fst [(''author'', Str ''x''), (''_sort'', Str ''title''), (''_order'', Str ''ASC''),
                         (''_start'', Num 10), (''_end'', Num 20)]
           = [(''_end'', Num 20), (''_order'', Str ''ASC''), (''_sort'', Str ''title''),
              (''_start'', Num 10), (''author'', Str ''x'')]"
    by code_simp
  show ?thesis
    using safe getList_query_parameters [of "example_provider (fulfilling no_content)"
        "\<lparr>page = 2, perPage = 10\<rparr>" "\<lparr>field = ''title'', order = ''ASC''\<rparr>"
        "Obj [(''author'', Str ''x'')]" "''posts''" idle]
    by (simp add: q k example_provider_simps show_int_examples idle_def)
qed

lemma list_result_envelope:
  assumes "json resp = Obj env" and "map_of env ''value'' = Some (Arr (map Obj recs))"
  shows "list_result resp =
           Inr (Obj [(''data'', Arr (map (\<lambda>R. Obj (put ''id'' (lookup R ''Id'') R)) recs)),
                     (''total'', Num (int (length recs)))])"
  using assms
  by (simp add: list_result_def bindE_def lookup_def mapE_idFuncSingle_records
      idFunc_items_after_records)

text \<open>
  Claim C7.  When the GET of \<^verbatim>\<open>getList\<close> is answered by an envelope whose field \<^verbatim>\<open>value\<close> is
  an array of records, the result is \<^verbatim>\<open>{data, total}\<close> with the normalized records as
  \<^verbatim>\<open>data\<close> and the length of that array as \<^verbatim>\<open>total\<close>, whatever else the response holds
  (headers, other fields of the envelope).
\<close>

theorem getList_total_is_length_of_value:
  assumes "httpClient p (getList_request p resource pg srt F) (world st) = (Inr resp, w')"
    and "json resp = Obj env"
    and "map_of env ''value'' = Some (Arr (map Obj recs))"
  shows "fst (getList p resource pg srt F st) =
           Inr (Obj [(''data'', Arr (map (\<lambda>R. Obj (put ''id'' (lookup R ''Id'') R)) recs)),
                     (''total'', Num (int (length recs)))])"
  using assms(1) list_result_envelope [OF assms(2,3)]
  by (simp add: getList_def call_def then_do_def)

theorem getList_total_is_length_of_value_witness:
  "fst (getList
          (example_provider (fulfilling
             \<lparr>status = 200, headers = [(''X-Total-Count'', ''57'')], body_text = [],
              json = Obj [(''value'', Arr [Obj [(''Id'', Num 11), (''title'', Str ''a'')],
                                           Obj [(''Id'', Num 12), (''title'', Str ''b'')]]),
                          (''count'', Num 57)]\<rparr>))
          ''posts'' \<lparr>page = 2, perPage = 10\<rparr> \<lparr>field = ''title'', order = ''ASC''\<rparr> (Obj []) idle)
     = Inr (Obj [(''data'', Arr [Obj [(''Id'', Num 11), (''title'', Str ''a''), (''id'', Num 11)],
                                 Obj [(''Id'', Num 12), (''title'', Str ''b''), (''id'', Num 12)]]),
                 (''total'', Num 2)])"
  using getList_total_is_length_of_value
          [where p = "example_provider (fulfilling
             \<lparr>status = 200, headers = [(''X-Total-Count'', ''57'')], body_text = [],
              json = Obj [(''value'', Arr [Obj [(''Id'', Num 11), (''title'', Str ''a'')],
                                           Obj [(''Id'', Num 12), (''title'', Str ''b'')]]),
                          (''count'', Num 57)]\<rparr>)"
             and resource = "''posts''" and pg = "\<lparr>page = 2, perPage = 10\<rparr>"
             and srt = "\<lparr>field = ''title'', order = ''ASC''\<rparr>" and F = "Obj []" and st = idle
             and resp = "\<lparr>status = 200, headers = [(''X-Total-Count'', ''57'')], body_text = [],
              json = Obj [(''value'', Arr [Obj [(''Id'', Num 11), (''title'', Str ''a'')],
                                           Obj [(''Id'', Num 12), (''title'', Str ''b'')]]),
                          (''count'', Num 57)]\<rparr>"
             and w' = "()"
             and env = "[(''value'', Arr [Obj [(''Id'', Num 11), (''title'', Str ''a'')],
                                           Obj [(''Id'', Num 12), (''title'', Str ''b'')]]),
                          (''count'', Num 57)]"
             and recs = "[[(''Id'', Num 11), (''title'', Str ''a'')], [(''Id'', Num 12), (''title'', Str ''b'')]]"]
  by (simp add: example_provider_simps fulfilling_def lookup_def)

section \<open>\<^verbatim>\<open>update\<close>: results\<close>

text \<open>
  Claim C3, as stated, fails in its second half: the result's data are not the input data
  minus \<^verbatim>\<open>id\<close>.  The callback passes them through \<open>idFunc\<close>, which sets \<^verbatim>\<open>id\<close> again, to
  the value of the data's own field \<^verbatim>\<open>Id\<close>.  For the data \<^verbatim>\<open>{id: 7, Id: 3, title: 'x'}\<close> the
  result holds \<^verbatim>\<open>{Id: 3, title: 'x', id: 3}\<close>, while the input minus \<^verbatim>\<open>id\<close> is
  \<^verbatim>\<open>{Id: 3, title: 'x'}\<close>.
\<close>

theorem update_result_counterexample:
  "fst (update (example_provider (fulfilling no_content)) ''posts'' (IdNum 3)
          (Obj [(''id'', Num 7), (''Id'', Num 3), (''title'', Str ''x'')]) idle)
     = Inr (Obj [(''data'', Obj [(''Id'', Num 3), (''title'', Str ''x''), (''id'', Num 3)])])
   \<and> delete_prop (Obj [(''id'', Num 7), (''Id'', Num 3), (''title'', Str ''x'')]) ''id''
     = Inr (Obj [(''Id'', Num 3), (''title'', Str ''x'')])
   \<and> fst (update (example_provider (fulfilling no_content)) ''posts'' (IdNum 3)
          (Obj [(''id'', Num 7), (''Id'', Num 3), (''title'', Str ''x'')]) idle)
     \<noteq> Inr (Obj [(''data'', Obj [(''Id'', Num 3), (''title'', Str ''x'')])])"
  by (simp add: update_def update_request_def call_def example_provider_simps fulfilling_def
      idle_def bindE_def idFuncSingle_Obj lookup_def)

text \<open>
  Claim C3, amended.  For every update call whose data are a record \<open>D\<close>, the body of the
  single PUT is the serialization of \<open>D\<close> without its field \<^verbatim>\<open>id\<close>; and when the request
  is fulfilled, with whatever response, the result's data are \<open>D\<close> without \<^verbatim>\<open>id\<close> and then
  with \<^verbatim>\<open>id\<close> set to the value of \<open>D\<close>'s field \<^verbatim>\<open>Id\<close> (\<^verbatim>\<open>undefined\<close> when there is none):
  nothing of the response enters the result.  The caller's object is that same record.
\<close>

theorem update_echoes_normalized_data:
  assumes "httpClient p (update_request p resource ident (Obj (filter (\<lambda>kv. fst kv \<noteq> ''id'') D)))
             (world st) = (Inr resp, w')"
  shows "update p resource ident (Obj D) st =
           (Inr (Obj [(''data'', Obj (put ''id'' (lookup D ''Id'') (filter (\<lambda>kv. fst kv \<noteq> ''id'') D)))]),
            Obj (put ''id'' (lookup D ''Id'') (filter (\<lambda>kv. fst kv \<noteq> ''id'') D)),
            \<lparr>sent = sent st @
               [\<lparr>url = apiUrl p @ ''/'' @ resource @ ''/'' @ ToString (val_of ident),
                 http_method = Some ''PUT'',
                 body = JSON_stringify p (Obj (filter (\<lambda>kv. fst kv \<noteq> ''id'') D))\<rparr>],
             world = w'\<rparr>)"
  using assms
  by (simp add: update_def update_request_def item_url_def call_def bindE_def idFuncSingle_Obj
      lookup_filter_other)

theorem update_echoes_normalized_data_witness:
  "update (example_provider (fulfilling (ok_json (Obj [(''Id'', Num 99), (''title'', Str ''server'')]))))
       ''posts'' (IdNum 3) (Obj [(''id'', Num 3), (''title'', Str ''x'')]) idle
     = (Inr (Obj [(''data'', Obj [(''title'', Str ''x''), (''id'', Undefined)])]),
        Obj [(''title'', Str ''x''), (''id'', Undefined)],
        \<lparr>sent = [\<lparr>url = ''http://my.api.url/posts/3'', http_method = Some ''PUT'',
                  body = Some (json_text (Obj [(''title'', Str ''x'')]))\<rparr>],
         world = ()\<rparr>)"
  using update_echoes_normalized_data
          [where p = "example_provider (fulfilling (ok_json (Obj [(''Id'', Num 99), (''title'', Str ''server'')])))"
             and resource = "''posts''" and ident = "IdNum 3"
             and D = "[(''id'', Num 3), (''title'', Str ''x'')]" and st = idle
             and resp = "ok_json (Obj [(''Id'', Num 99), (''title'', Str ''server'')])" and w' = "()"]
  by (simp add: example_provider_simps fulfilling_def lookup_def show_int_examples idle_def)

text \<open>
  Claim C10.  \<^verbatim>\<open>update\<close> deletes the field \<^verbatim>\<open>id\<close> of the caller's data object before it
  builds the request: when the transport rejects the PUT, whose body is already the
  serialization of the data without \<^verbatim>\<open>id\<close>, the handler rejects with the transport's
  reason and the caller's object is left without \<^verbatim>\<open>id\<close>.
\<close>

theorem update_deletes_id_even_when_rejected:
  assumes "httpClient p (update_request p resource ident (Obj (filter (\<lambda>kv. fst kv \<noteq> ''id'') D)))
             (world st) = (Inl reason, w')"
  shows "update p resource ident (Obj D) st =
           (Inl (Rejection reason),
            Obj (filter (\<lambda>kv. fst kv \<noteq> ''id'') D),
            \<lparr>sent = sent st @
               [\<lparr>url = apiUrl p @ ''/'' @ resource @ ''/'' @ ToString (val_of ident),
                 http_method = Some ''PUT'',
                 body = JSON_stringify p (Obj (filter (\<lambda>kv. fst kv \<noteq> ''id'') D))\<rparr>],
             world = w'\<rparr>)
         \<and> map_of (filter (\<lambda>kv. fst kv \<noteq> ''id'') D) ''id'' = None"
  using assms
  by (simp add: update_def update_request_def item_url_def call_def map_of_filter_key)

theorem update_deletes_id_even_when_rejected_witness:
  "update (example_provider (rejecting (Str ''503''))) ''posts'' (IdNum 3)
       (Obj [(''id'', Num 3), (''Id'', Num 3), (''title'', Str ''x'')]) idle
     = (Inl (Rejection (Str ''503'')),
        Obj [(''Id'', Num 3), (''title'', Str ''x'')],
        \<lparr>sent = [\<lparr>url = ''http://my.api.url/posts/3'', http_method = Some ''PUT'',
                  body = Some (json_text (Obj [(''Id'', Num 3), (''title'', Str ''x'')]))\<rparr>],
         world = ()\<rparr>)"
  using update_deletes_id_even_when_rejected
          [where p = "example_provider (rejecting (Str ''503''))"
             and resource = "''posts''" and ident = "IdNum 3"
             and D = "[(''id'', Num 3), (''Id'', Num 3), (''title'', Str ''x'')]" and st = idle
             and reason = "Str ''503''" and w' = "()"]
  by (simp add: example_provider_simps rejecting_def show_int_examples idle_def)

section \<open>The fan-out handlers: results\<close>

text \<open>
  Claim C2.  \<^verbatim>\<open>deleteMany\<close> sends one DELETE per id, in the order of the ids.  It does
  not resolve with the ids: when every request is fulfilled, the callback passes the array
  of identifiers to \<open>idFunc\<close>, which throws on the first of them, and the promise is
  rejected with that \<^verbatim>\<open>TypeError\<close>.  So it is for every non-empty \<^verbatim>\<open>ids\<close>, and for
  \<^verbatim>\<open>[4, 5]\<close>.
\<close>

theorem deleteMany_rejects_for_identifiers:
  assumes "ids \<noteq> []"
    and "fst (call_each p (deleteMany_requests p resource ids) st) = map Inr responses"
  shows "fst (deleteMany p resource ids st) = Inl TypeError
       \<and> sent (snd (deleteMany p resource ids st))
           = sent st @ map (\<lambda>ident. \<lparr>url = apiUrl p @ ''/'' @ resource @ ''/'' @ ToString (val_of ident),
                                     http_method = Some ''DELETE'', body = None\<rparr>) ids"
proof -
  obtain settled st' where c: "call_each p (deleteMany_requests p resource ids) st = (settled, st')"
    by (cases "call_each p (deleteMany_requests p resource ids) st")
  have s: "settled = map Inr responses" using assms(2) c by simp
  have "sent st' = sent st @ deleteMany_requests p resource ids"
    using call_each_sent [of p "deleteMany_requests p resource ids" st] c by simp
  then have "sent st' = sent st @ map (\<lambda>ident. \<lparr>url = apiUrl p @ ''/'' @ resource @ ''/'' @ ToString (val_of ident),
                                     http_method = Some ''DELETE'', body = None\<rparr>) ids"
    by (simp add: deleteMany_requests_def item_url_def)
  then show ?thesis
    using c s idFunc_ids [OF assms(1)]
    by (simp add: deleteMany_def then_do_def Promise_all_fulfils bindE_def del: idFunc.simps)
qed

theorem deleteMany_rejects_for_identifiers_witness:
  "fst (deleteMany (example_provider (fulfilling no_content)) ''posts'' [IdNum 4, IdNum 5] idle)
     = Inl TypeError
   \<and> sent (snd (deleteMany (example_provider (fulfilling no_content)) ''posts'' [IdNum 4, IdNum 5] idle))
     = [\<lparr>url = ''http://my.api.url/posts/4'', http_method = Some ''DELETE'', body = None\<rparr>,
        \<lparr>url = ''http://my.api.url/posts/5'', http_method = Some ''DELETE'', body = None\<rparr>]"
proof -
  have ne: "[IdNum 4, IdNum 5] \<noteq> []" by simp
  have c: "fst (call_each (example_provider (fulfilling no_content))
                  (deleteMany_requests (example_provider (fulfilling no_content)) ''posts''
                     [IdNum 4, IdNum 5]) idle)
        = map Inr [no_content, no_content]"
    by (simp add: deleteMany_requests_def call_def example_provider_simps fulfilling_def)
  show ?thesis
    using deleteMany_rejects_for_identifiers [OF ne c]
    by (simp add: example_provider_simps show_int_examples idle_def)
qed

text \<open>
  What \<^verbatim>\<open>updateMany\<close> does when every PUT is answered with a JSON object: it resolves with
  the \<^verbatim>\<open>Id\<close> fields of the responses, in the order of the ids.
\<close>

lemma updateMany_with_payloads:
  assumes "fst (call_each p (updateMany_requests p resource ids D) st) = map Inr responses"
    and "\<And>resp. resp \<in> set responses \<Longrightarrow> json resp = Obj (props_of resp)"
  shows "fst (updateMany p resource ids D st)
           = Inr (Obj [(''data'', Arr (map (\<lambda>resp. lookup (props_of resp) ''Id'') responses))])
       \<and> length responses = length ids"
proof -
  obtain settled st' where c: "call_each p (updateMany_requests p resource ids D) st = (settled, st')"
    by (cases "call_each p (updateMany_requests p resource ids D) st")
  have s: "settled = map Inr responses" using assms(1) c by simp
  have m: "mapE (\<lambda>resp. get_prop (json resp) ''Id'') responses
            = Inr (map (\<lambda>resp. lookup (props_of resp) ''Id'') responses)"
    by (rule mapE_total) (simp add: assms(2))
  have "length (map Inr responses :: (jsval + response) list)
          = length (updateMany_requests p resource ids D)"
    using call_each_length [of p "updateMany_requests p resource ids D" st] assms(1) by simp
  then have "length responses = length ids" by (simp add: updateMany_requests_def)
  then show ?thesis
    using c s by (simp add: updateMany_def then_do_def Promise_all_fulfils m bindE_def)
qed

text \<open>
  Claim C8.  \<^verbatim>\<open>updateMany\<close> sends one PUT per id, in the order of the ids, each with the
  serialization of the same data as its body.  It does not always resolve when every
  request is fulfilled: the callback reads \<^verbatim>\<open>json.Id\<close> of each response, which throws when
  a response has no JSON body (\<^verbatim>\<open>json\<close> is \<^verbatim>\<open>undefined\<close>, or \<^verbatim>\<open>null\<close>), and the promise
  is rejected with that \<^verbatim>\<open>TypeError\<close>.  The comment in \<^verbatim>\<open>update\<close> says that the backend
  answers a PUT without a payload.
\<close>

theorem updateMany_rejects_without_payload:
  assumes "fst (call_each p (updateMany_requests p resource ids D) st) = map Inr responses"
    and "resp \<in> set responses"
    and "json resp = Undefined \<or> json resp = Null"
  shows "fst (updateMany p resource ids D st) = Inl TypeError
       \<and> sent (snd (updateMany p resource ids D st))
           = sent st @ map (\<lambda>ident. \<lparr>url = apiUrl p @ ''/'' @ resource @ ''/'' @ ToString (val_of ident),
                                     http_method = Some ''PUT'', body = JSON_stringify p D\<rparr>) ids"
proof -
  obtain settled st' where c: "call_each p (updateMany_requests p resource ids D) st = (settled, st')"
    by (cases "call_each p (updateMany_requests p resource ids D) st")
  have s: "settled = map Inr responses" using assms(1) c by simp
  have "get_prop (json resp) ''Id'' = Inl TypeError" using assms(3) by auto
  then have m: "mapE (\<lambda>resp. get_prop (json resp) ''Id'') responses = Inl TypeError"
    using assms(2) get_prop_error by (intro mapE_error [where x = resp]) auto
  have "sent st' = sent st @ updateMany_requests p resource ids D"
    using call_each_sent [of p "updateMany_requests p resource ids D" st] c by simp
  then have "sent st' = sent st @ map (\<lambda>ident. \<lparr>url = apiUrl p @ ''/'' @ resource @ ''/'' @ ToString (val_of ident),
                                     http_method = Some ''PUT'', body = JSON_stringify p D\<rparr>) ids"
    by (simp add: updateMany_requests_def item_url_def)
  then show ?thesis
    using c s by (simp add: updateMany_def then_do_def Promise_all_fulfils m bindE_def)
qed

theorem updateMany_rejects_without_payload_witness:
  "fst (updateMany (example_provider (fulfilling no_content)) ''posts'' [IdNum 1]
          (Obj [(''title'', Str ''x'')]) idle)
     = Inl TypeError
   \<and> sent (snd (updateMany (example_provider (fulfilling no_content)) ''posts'' [IdNum 1]
          (Obj [(''title'', Str ''x'')]) idle))
     = [\<lparr>url = ''http://my.api.url/posts/1'', http_method = Some ''PUT'',
         body = Some (json_text (Obj [(''title'', Str ''x'')]))\<rparr>]"
proof -
  have c: "fst (call_each (example_provider (fulfilling no_content))
                  (updateMany_requests (example_provider (fulfilling no_content)) ''posts''
                     [IdNum 1] (Obj [(''title'', Str ''x'')])) idle)
        = map Inr [no_content]"
    by (simp add: updateMany_requests_def call_def example_provider_simps fulfilling_def)
  have m: "no_content \<in> set [no_content]" by simp
  have j: "json no_content = Undefined \<or> json no_content = Null" by (simp add: no_content_def)
  show ?thesis
    using updateMany_rejects_without_payload [OF c m j]
    by (simp add: example_provider_simps show_int_examples idle_def)
qed

section \<open>Failures\<close>

text \<open>
  A handler with one request settles as \<open>call\<close> on that request leaves it: a rejection of
  the transport becomes the handler's rejection, with the same reason, and the state is the
  one after that single call.
\<close>

lemma getList_rejected:
  "(\<forall>r. fst (call p (getList_request p resource pg srt F) st) = Inl r
       \<longrightarrow> fst (getList p resource pg srt F st) = Inl (Rejection r))
   \<and> sent (snd (getList p resource pg srt F st)) = sent st @ [getList_request p resource pg srt F]"
  using sent_call [of p "getList_request p resource pg srt F" st]
  by (auto simp: getList_def then_do_def split: prod.splits)

lemma getOne_rejected:
  "(\<forall>r. fst (call p (getOne_request p resource ident) st) = Inl r
       \<longrightarrow> fst (getOne p resource ident st) = Inl (Rejection r))
   \<and> sent (snd (getOne p resource ident st)) = sent st @ [getOne_request p resource ident]"
  using sent_call [of p "getOne_request p resource ident" st]
  by (auto simp: getOne_def then_do_def split: prod.splits)

lemma getMany_rejected:
  "(\<forall>r. fst (call p (getMany_request p resource ids) st) = Inl r
       \<longrightarrow> fst (getMany p resource ids st) = Inl (Rejection r))
   \<and> sent (snd (snd (getMany p resource ids st))) = sent st @ [getMany_request p resource ids]"
  using sent_call [of p "getMany_request p resource ids" st]
  by (auto simp: getMany_def then_do_def split: prod.splits)

lemma getManyReference_rejected:
  "(\<forall>r. fst (call p (getManyReference_request p resource target ident) st) = Inl r
       \<longrightarrow> fst (getManyReference p resource target ident st) = Inl (Rejection r))
   \<and> sent (snd (getManyReference p resource target ident st))
       = sent st @ [getManyReference_request p resource target ident]"
  using sent_call [of p "getManyReference_request p resource target ident" st]
  by (auto simp: getManyReference_def then_do_def split: prod.splits)

lemma create_rejected:
  "(\<forall>r. fst (call p (create_request p resource D) st) = Inl r
       \<longrightarrow> fst (create p resource D st) = Inl (Rejection r))
   \<and> sent (snd (create p resource D st)) = sent st @ [create_request p resource D]"
  using sent_call [of p "create_request p resource D" st]
  by (auto simp: create_def then_do_def split: prod.splits)

lemma update_rejected:
  "\<forall>D1. delete_prop D ''id'' = Inr D1 \<longrightarrow>
     (\<forall>r. fst (call p (update_request p resource ident D1) st) = Inl r
          \<longrightarrow> fst (update p resource ident D st) = Inl (Rejection r))
     \<and> sent (snd (snd (update p resource ident D st)))
         = sent st @ [update_request p resource ident D1]"
proof (intro allI impI)
  fix D1
  assume d: "delete_prop D ''id'' = Inr D1"
  show "(\<forall>r. fst (call p (update_request p resource ident D1) st) = Inl r
            \<longrightarrow> fst (update p resource ident D st) = Inl (Rejection r))
        \<and> sent (snd (snd (update p resource ident D st)))
            = sent st @ [update_request p resource ident D1]"
    using sent_call [of p "update_request p resource ident D1" st]
    by (auto simp: update_def d split: prod.splits sum.splits)
qed

lemma delete_rejected:
  "(\<forall>r. fst (call p (delete_request p resource params) st) = Inl r
       \<longrightarrow> fst (delete p resource params st) = Inl (Rejection r))
   \<and> sent (snd (snd (delete p resource params st))) = sent st @ [delete_request p resource params]"
  using sent_call [of p "delete_request p resource params" st]
  by (auto simp: delete_def split: prod.splits sum.splits)

text \<open>
  A fan-out handler sends all its requests and, when one of them is rejected, rejects with
  the reason of a rejected request.
\<close>

lemma updateMany_rejected:
  "(\<forall>r. Inl r \<in> set (fst (call_each p (updateMany_requests p resource ids D) st))
       \<longrightarrow> (\<exists>r'. Inl r' \<in> set (fst (call_each p (updateMany_requests p resource ids D) st))
                 \<and> fst (updateMany p resource ids D st) = Inl (Rejection r')))
   \<and> sent (snd (updateMany p resource ids D st)) = sent st @ updateMany_requests p resource ids D"
  using call_each_sent [of p "updateMany_requests p resource ids D" st]
  by (auto simp: updateMany_def dest: fan_out_rejects split: prod.splits)

lemma deleteMany_rejected:
  "(\<forall>r. Inl r \<in> set (fst (call_each p (deleteMany_requests p resource ids) st))
       \<longrightarrow> (\<exists>r'. Inl r' \<in> set (fst (call_each p (deleteMany_requests p resource ids) st))
                 \<and> fst (deleteMany p resource ids st) = Inl (Rejection r')))
   \<and> sent (snd (deleteMany p resource ids st)) = sent st @ deleteMany_requests p resource ids"
  using call_each_sent [of p "deleteMany_requests p resource ids" st]
  by (auto simp: deleteMany_def dest: fan_out_rejects split: prod.splits)

text \<open>
  Claim C9.  For \<^verbatim>\<open>updateMany\<close> and \<^verbatim>\<open>deleteMany\<close>: when one of the requests is rejected,
  the handler rejects, with the reason of a rejected request, and it has sent each of its
  requests once.  For each of the other seven handlers: when the transport rejects the
  request, the handler rejects with the very same reason, and it has sent that one request
  and no other.  (\<^verbatim>\<open>update\<close> sends its request when \<^verbatim>\<open>delete params.data.id\<close> has not
  thrown, that is, when the data are neither \<^verbatim>\<open>undefined\<close> nor \<^verbatim>\<open>null\<close>.)
\<close>

theorem rejections_propagate:
  "((\<forall>r. fst (call p (getList_request p resource pg srt F) st) = Inl r
        \<longrightarrow> fst (getList p resource pg srt F st) = Inl (Rejection r))
    \<and> sent (snd (getList p resource pg srt F st)) = sent st @ [getList_request p resource pg srt F])
   \<and> ((\<forall>r. fst (call p (getOne_request p resource ident) st) = Inl r
        \<longrightarrow> fst (getOne p resource ident st) = Inl (Rejection r))
    \<and> sent (snd (getOne p resource ident st)) = sent st @ [getOne_request p resource ident])
   \<and> ((\<forall>r. fst (call p (getMany_request p resource ids) st) = Inl r
        \<longrightarrow> fst (getMany p resource ids st) = Inl (Rejection r))
    \<and> sent (snd (snd (getMany p resource ids st))) = sent st @ [getMany_request p resource ids])
   \<and> ((\<forall>r. fst (call p (getManyReference_request p resource target ident) st) = Inl r
        \<longrightarrow> fst (getManyReference p resource target ident st) = Inl (Rejection r))
    \<and> sent (snd (getManyReference p resource target ident st))
        = sent st @ [getManyReference_request p resource target ident])
   \<and> ((\<forall>r. fst (call p (create_request p resource D) st) = Inl r
        \<longrightarrow> fst (create p resource D st) = Inl (Rejection r))
    \<and> sent (snd (create p resource D st)) = sent st @ [create_request p resource D])
   \<and> (\<forall>D1. delete_prop D ''id'' = Inr D1 \<longrightarrow>
          (\<forall>r. fst (call p (update_request p resource ident D1) st) = Inl r
               \<longrightarrow> fst (update p resource ident D st) = Inl (Rejection r))
          \<and> sent (snd (snd (update p resource ident D st)))
              = sent st @ [update_request p resource ident D1])
   \<and> ((\<forall>r. fst (call p (delete_request p resource params) st) = Inl r
        \<longrightarrow> fst (delete p resource params st) = Inl (Rejection r))
    \<and> sent (snd (snd (delete p resource params st))) = sent st @ [delete_request p resource params])
   \<and> ((\<forall>r. Inl r \<in> set (fst (call_each p (updateMany_requests p resource ids D) st))
        \<longrightarrow> (\<exists>r'. Inl r' \<in> set (fst (call_each p (updateMany_requests p resource ids D) st))
                  \<and> fst (updateMany p resource ids D st) = Inl (Rejection r')))
    \<and> sent (snd (updateMany p resource ids D st)) = sent st @ updateMany_requests p resource ids D)
   \<and> ((\<forall>r. Inl r \<in> set (fst (call_each p (deleteMany_requests p resource ids) st))
        \<longrightarrow> (\<exists>r'. Inl r' \<in> set (fst (call_each p (deleteMany_requests p resource ids) st))
                  \<and> fst (deleteMany p resource ids st) = Inl (Rejection r')))
    \<and> sent (snd (deleteMany p resource ids st)) = sent st @ deleteMany_requests p resource ids)"
  by (rule conjI [OF getList_rejected conjI [OF getOne_rejected conjI [OF getMany_rejected
        conjI [OF getManyReference_rejected conjI [OF create_rejected conjI [OF update_rejected
        conjI [OF delete_rejected conjI [OF updateMany_rejected deleteMany_rejected]]]]]]]])

theorem rejections_propagate_witness:
  "fst (getList (example_provider (rejecting (Str ''503''))) ''posts'' \<lparr>page = 1, perPage = 10\<rparr>
          \<lparr>field = ''title'', order = ''ASC''\<rparr> (Obj []) idle) = Inl (Rejection (Str ''503''))
   \<and> fst (getOne (example_provider (rejecting (Str ''503''))) ''posts'' (IdNum 1) idle)
       = Inl (Rejection (Str ''503''))
   \<and> fst (getMany (example_provider (rejecting (Str ''503''))) ''posts'' [IdNum 1, IdNum 2] idle)
       = Inl (Rejection (Str ''503''))
   \<and> fst (getManyReference (example_provider (rejecting (Str ''503''))) ''posts'' ''author'' (IdNum 1) idle)
       = Inl (Rejection (Str ''503''))
   \<and> fst (create (example_provider (rejecting (Str ''503''))) ''posts'' (Obj [(''title'', Str ''x'')]) idle)
       = Inl (Rejection (Str ''503''))
   \<and> fst (update (example_provider (rejecting (Str ''503''))) ''posts'' (IdNum 1)
            (Obj [(''title'', Str ''x'')]) idle)
       = Inl (Rejection (Str ''503''))
   \<and> fst (delete (example_provider (rejecting (Str ''503''))) ''posts'' [(''id'', Num 1)] idle)
       = Inl (Rejection (Str ''503''))
   \<and> fst (updateMany
            (example_provider (rejecting_url ''http://my.api.url/posts/2'' (Str ''503'') no_content))
            ''posts'' [IdNum 1, IdNum 2, IdNum 3] (Obj [(''title'', Str ''x'')]) idle)
       = Inl (Rejection (Str ''503''))
   \<and> map url (sent (snd (updateMany
            (example_provider (rejecting_url ''http://my.api.url/posts/2'' (Str ''503'') no_content))
            ''posts'' [IdNum 1, IdNum 2, IdNum 3] (Obj [(''title'', Str ''x'')]) idle)))
       = [''http://my.api.url/posts/1'', ''http://my.api.url/posts/2'', ''http://my.api.url/posts/3'']
   \<and> fst (deleteMany
            (example_provider (rejecting_url ''http://my.api.url/posts/2'' (Str ''503'') no_content))
            ''posts'' [IdNum 1, IdNum 2, IdNum 3] idle)
       = Inl (Rejection (Str ''503''))"
proof -
  let ?all = "example_provider (rejecting (Str ''503''))"
  let ?one = "example_provider (rejecting_url ''http://my.api.url/posts/2'' (Str ''503'') no_content)"
  have single: "fst (call ?all rq idle) = Inl (Str ''503'')" for rq
    by (simp add: call_def example_provider_simps rejecting_def)
  have many: "fst (call_each ?one (updateMany_requests ?one ''posts'' [IdNum 1, IdNum 2, IdNum 3]
                      (Obj [(''title'', Str ''x'')])) idle)
                = [Inr no_content, Inl (Str ''503''), Inr no_content]"
    by (simp add: updateMany_requests_def item_url_def call_def example_provider_simps
        rejecting_url_def show_int_examples)
  have many': "fst (call_each ?one (deleteMany_requests ?one ''posts'' [IdNum 1, IdNum 2, IdNum 3]) idle)
                = [Inr no_content, Inl (Str ''503''), Inr no_content]"
    by (simp add: deleteMany_requests_def item_url_def call_def example_provider_simps
        rejecting_url_def show_int_examples)
  have urls: "map url (updateMany_requests ?one ''posts'' [IdNum 1, IdNum 2, IdNum 3]
                         (Obj [(''title'', Str ''x'')]))
                = [''http://my.api.url/posts/1'', ''http://my.api.url/posts/2'', ''http://my.api.url/posts/3'']"
    by (simp add: updateMany_requests_def item_url_def example_provider_simps show_int_examples)
  have idle: "sent idle = []" by (simp add: idle_def)
  show ?thesis
    using rejections_propagate [where p = ?all and resource = "''posts''" and st = idle
            and pg = "\<lparr>page = 1, perPage = 10\<rparr>" and srt = "\<lparr>field = ''title'', order = ''ASC''\<rparr>"
            and F = "Obj []" and ident = "IdNum 1" and ids = "[IdNum 1, IdNum 2]"
            and target = "''author''" and D = "Obj [(''title'', Str ''x'')]"
            and params = "[(''id'', Num 1)]"]
          rejections_propagate [where p = ?one and resource = "''posts''" and st = idle
            and ids = "[IdNum 1, IdNum 2, IdNum 3]" and D = "Obj [(''title'', Str ''x'')]"]
    by (simp add: single many many' urls idle)
qed

end
